theory Spec2Isabelle
  imports Main
begin

section \<open>JavaScript values\<close>

text \<open>
  The client is JavaScript. A string is represented by its UTF-8 bytes (\<open>string\<close> is a
  list of 8-bit characters), a value that travels as JSON by \<open>jsval\<close>. Numbers are
  integers here: the code looks at numbers only through their truthiness and their
  decimal rendering.
\<close>

datatype jsval =
    JUndefined
  | JNull
  | JBool bool
  | JNum int
  | JStr string
  | JArr "jsval list"
  | JObj "(string \<times> jsval) list"

text \<open>\<open>if (v)\<close>, \<open>!v\<close>, \<open>a || b\<close>: every array and every object is truthy.\<close>

fun truthy :: "jsval \<Rightarrow> bool" where
  "truthy JUndefined = False"
| "truthy JNull = False"
| "truthy (JBool b) = b"
| "truthy (JNum n) = (n \<noteq> 0)"
| "truthy (JStr s) = (s \<noteq> [])"
| "truthy (JArr xs) = True"
| "truthy (JObj kvs) = True"

definition js_or :: "jsval \<Rightarrow> jsval \<Rightarrow> jsval" where
  "js_or a b = (if truthy a then a else b)"

text \<open>
  Property reads. An object parsed from JSON keeps the last of several equal keys. The
  names this code reads (\<open>response\<close>, \<open>messages\<close>, \<open>detail\<close>, ...) are no built-in
  property of a string, a number or an array, so a read on those gives \<open>undefined\<close>; a
  read on \<open>null\<close> or \<open>undefined\<close> throws a TypeError, whose message is the left
  summand of \<open>getp\<close>.
\<close>

definition field :: "jsval \<Rightarrow> string \<Rightarrow> jsval" where
  "field v k =
     (case v of
        JObj kvs \<Rightarrow> (case map_of (rev kvs) k of None \<Rightarrow> JUndefined | Some x \<Rightarrow> x)
      | _ \<Rightarrow> JUndefined)"

definition nullish :: "jsval \<Rightarrow> bool" where
  "nullish v = (v = JNull \<or> v = JUndefined)"

definition nullReadMessage :: "jsval \<Rightarrow> string \<Rightarrow> string" where
  "nullReadMessage v k =
     ''Cannot read properties of '' @ (if v = JNull then ''null'' else ''undefined'')
       @ '' (reading '' @ [CHR 0x27] @ k @ [CHR 0x27] @ '')''"

definition getp :: "jsval \<Rightarrow> string \<Rightarrow> string + jsval" where
  "getp v k = (if nullish v then Inl (nullReadMessage v k) else Inr (field v k))"

text \<open>Decimal rendering of a number and \<open>String(v)\<close>, as a template literal and
  \<open>new Error(v)\<close> apply it.\<close>

fun showNat :: "nat \<Rightarrow> string" where
  "showNat n =
     (if n < 10 then [char_of (48 + n)]
      else showNat (n div 10) @ [char_of (48 + n mod 10)])"

definition showInt :: "int \<Rightarrow> string" where
  "showInt i = (if i < 0 then CHR ''-'' # showNat (nat (- i)) else showNat (nat i))"

fun joinWith :: "string \<Rightarrow> string list \<Rightarrow> string" where
  "joinWith sep [] = []"
| "joinWith sep [x] = x"
| "joinWith sep (x # y # ys) = x @ sep @ joinWith sep (y # ys)"

fun toStr :: "jsval \<Rightarrow> string" where
  "toStr JUndefined = ''undefined''"
| "toStr JNull = ''null''"
| "toStr (JBool b) = (if b then ''true'' else ''false'')"
| "toStr (JNum n) = showInt n"
| "toStr (JStr s) = s"
| "toStr (JArr xs) =
     joinWith '','' (map (\<lambda>x. if x = JNull \<or> x = JUndefined then [] else toStr x) xs)"
| "toStr (JObj kvs) = ''[object Object]''"

subsection \<open>Strings: \<open>trim\<close> and \<open>includes\<close>\<close>

text \<open>The white space and line terminators that \<open>String.prototype.trim\<close> removes, in
  UTF-8: U+0009 to U+000D, U+0020, U+00A0, U+1680, U+2000 to U+200A, U+2028, U+2029,
  U+202F, U+205F, U+3000 and U+FEFF.\<close>

definition jsWhitespace :: "string list" where
  "jsWhitespace =
     [[CHR 0x09], [CHR 0x0A], [CHR 0x0B], [CHR 0x0C], [CHR 0x0D], [CHR 0x20],
      [CHR 0xC2, CHR 0xA0], [CHR 0xE1, CHR 0x9A, CHR 0x80],
      [CHR 0xE2, CHR 0x80, CHR 0x80], [CHR 0xE2, CHR 0x80, CHR 0x81],
      [CHR 0xE2, CHR 0x80, CHR 0x82], [CHR 0xE2, CHR 0x80, CHR 0x83],
      [CHR 0xE2, CHR 0x80, CHR 0x84], [CHR 0xE2, CHR 0x80, CHR 0x85],
      [CHR 0xE2, CHR 0x80, CHR 0x86], [CHR 0xE2, CHR 0x80, CHR 0x87],
      [CHR 0xE2, CHR 0x80, CHR 0x88], [CHR 0xE2, CHR 0x80, CHR 0x89],
      [CHR 0xE2, CHR 0x80, CHR 0x8A], [CHR 0xE2, CHR 0x80, CHR 0xA8],
      [CHR 0xE2, CHR 0x80, CHR 0xA9], [CHR 0xE2, CHR 0x80, CHR 0xAF],
      [CHR 0xE2, CHR 0x81, CHR 0x9F], [CHR 0xE3, CHR 0x80, CHR 0x80],
      [CHR 0xEF, CHR 0xBB, CHR 0xBF]]"

definition startsWith :: "string \<Rightarrow> string \<Rightarrow> bool" where
  "startsWith s w = (take (length w) s = w)"

definition leading :: "string list \<Rightarrow> string \<Rightarrow> nat" where
  "leading ws s = (case find (startsWith s) ws of None \<Rightarrow> 0 | Some w \<Rightarrow> length w)"

function dropLeading :: "string list \<Rightarrow> string \<Rightarrow> string" where
  "dropLeading ws s =
     (if leading ws s = 0 then s else dropLeading ws (drop (leading ws s) s))"
  by pat_completeness auto
termination
proof (relation "measure (\<lambda>(ws, s). length s)")
  show "wf (measure (\<lambda>(ws, s). length s))" by simp
next
  fix ws :: "string list" and s :: string
  assume pos: "leading ws s \<noteq> 0"
  have "s \<noteq> []"
  proof
    assume "s = []"
    with pos show False
      by (auto simp: leading_def startsWith_def split: option.splits dest: find_Some_iff [THEN iffD1])
  qed
  with pos show "((ws, drop (leading ws s) s), (ws, s)) \<in> measure (\<lambda>(ws, s). length s)"
    by simp
qed

declare dropLeading.simps [simp del]

definition trim :: "string \<Rightarrow> string" where
  "trim s = rev (dropLeading (map rev jsWhitespace) (rev (dropLeading jsWhitespace s)))"

fun includes_str :: "string \<Rightarrow> string \<Rightarrow> bool" where
  "includes_str [] w = (w = [])"
| "includes_str (c # cs) w = (startsWith (c # cs) w \<or> includes_str cs w)"

section \<open>The API client (\<open>services/api\<close>, second document of \<open>components/JoinRoom.jsx\<close>)\<close>

text \<open>
  One HTTP exchange. \<open>fetch\<close> either rejects with a thrown value or resolves with a
  response; \<open>response.json()\<close> either rejects or gives the parsed body. A thrown value
  is an instance of \<open>Error\<close> carrying its message (the \<open>TypeError\<close> of a failed
  fetch and the \<open>SyntaxError\<close> of a body that is not JSON are such instances), or it
  is some other value.
\<close>

datatype thrown = ErrorInstance string | OtherThrown

record request =
  req_method :: string
  req_url :: string
  req_body :: "jsval option"

record response =
  ok :: bool
  statusText :: string
  json :: "thrown + jsval"

datatype fetch_outcome = FetchRejects thrown | FetchResolves response

type_synonym network = "request \<Rightarrow> fetch_outcome"

text \<open>An API function returns how its promise settles (\<open>Inl m\<close>: rejected with an
  \<open>Error\<close> whose message is \<open>m\<close>) and the HTTP requests it issued.\<close>

type_synonym api_result = "(string + jsval) \<times> request list"

definition API_BASE_URL :: string where
  "API_BASE_URL = ''https://aura-ai-997596012968.us-central1.run.app''"

text \<open>\<open>const errorData = await response.json().catch(() => ({}))\<close>\<close>

definition errorData :: "response \<Rightarrow> jsval" where
  "errorData r = (case json r of Inl e \<Rightarrow> JObj [] | Inr v \<Rightarrow> v)"

text \<open>\<open>throw new Error(errorData.detail || errorData.message || `<prefix>${response.statusText}`)\<close>;
  functions that do not read \<open>detail\<close> pass \<open>withDetail = False\<close>.\<close>

definition serverError :: "bool \<Rightarrow> string \<Rightarrow> response \<Rightarrow> thrown" where
  "serverError withDetail prefix r =
     (let d = errorData r in
      if nullish d then
        ErrorInstance (nullReadMessage d (if withDetail then ''detail'' else ''message''))
      else
        ErrorInstance (toStr
          (js_or (if withDetail then js_or (field d ''detail'') (field d ''message'')
                  else field d ''message'')
                 (JStr (prefix @ statusText r)))))"

text \<open>The body of the \<open>try\<close> block once the request is built, and the \<open>catch\<close> block:
  \<open>if (error instanceof Error) throw error; throw new Error(fallback)\<close>.\<close>

definition tryRequest :: "bool \<Rightarrow> string \<Rightarrow> fetch_outcome \<Rightarrow> thrown + jsval" where
  "tryRequest withDetail prefix out =
     (case out of
        FetchRejects e \<Rightarrow> Inl e
      | FetchResolves r \<Rightarrow> if \<not> ok r then Inl (serverError withDetail prefix r) else json r)"

definition catchRequest :: "string \<Rightarrow> thrown + jsval \<Rightarrow> string + jsval" where
  "catchRequest fallback res =
     (case res of
        Inl (ErrorInstance m) \<Rightarrow> Inl m
      | Inl OtherThrown \<Rightarrow> Inl fallback
      | Inr v \<Rightarrow> Inr v)"

definition createChat :: "network \<Rightarrow> jsval \<Rightarrow> api_result" where
  "createChat fetch chatData =
     (if \<not> truthy chatData \<or> \<not> truthy (field chatData ''user_id'') then
        (Inl ''User ID is required to create a chat'', [])
      else
        let req = \<lparr>req_method = ''POST'', req_url = API_BASE_URL @ ''/api/createChat/'',
                   req_body = Some chatData\<rparr>
        in (catchRequest ''Network error: Failed to connect to server''
              (tryRequest False ''Failed to create chat: '' (fetch req)), [req]))"

definition getChats :: "network \<Rightarrow> string \<Rightarrow> api_result" where
  "getChats fetch user_id =
     (if user_id = [] \<or> trim user_id = [] then (Inl ''User ID is required'', [])
      else
        let req = \<lparr>req_method = ''GET'', req_url = API_BASE_URL @ ''/api/chats/'' @ user_id,
                   req_body = None\<rparr>
        in (catchRequest ''Network error: Failed to connect to server''
              (tryRequest True ''Failed to fetch chats: '' (fetch req)), [req]))"

definition sendChatMessage :: "network \<Rightarrow> string \<Rightarrow> string \<Rightarrow> jsval \<Rightarrow> api_result" where
  "sendChatMessage fetch message userId threadId =
     (if message = [] \<or> trim message = [] then (Inl ''Message is required'', [])
      else if userId = [] then (Inl ''User ID is required'', [])
      else
        let requestBody = JObj ([(''message'', JStr (trim message)), (''user_id'', JStr userId)]
                                 @ (if truthy threadId then [(''thread_id'', threadId)] else []));
            req = \<lparr>req_method = ''POST'', req_url = API_BASE_URL @ ''/chat'',
                   req_body = Some requestBody\<rparr>
        in (catchRequest ''Network error: Failed to send message''
              (tryRequest True ''Failed to send message: '' (fetch req)), [req]))"

section \<open>URLs and the S3 key helpers (\<open>services/api\<close>)\<close>

subsection \<open>Characters and percent-encoding\<close>

definition code :: "char \<Rightarrow> nat" where
  "code c = of_char c"

definition isAlpha :: "char \<Rightarrow> bool" where
  "isAlpha c = ((65 \<le> code c \<and> code c \<le> 90) \<or> (97 \<le> code c \<and> code c \<le> 122))"

definition isDigit :: "char \<Rightarrow> bool" where
  "isDigit c = (48 \<le> code c \<and> code c \<le> 57)"

definition toLower :: "char \<Rightarrow> char" where
  "toLower c = (if 65 \<le> code c \<and> code c \<le> 90 then char_of (code c + 32) else c)"

definition hexDigit :: "nat \<Rightarrow> char" where
  "hexDigit n = (if n < 10 then char_of (48 + n) else char_of (55 + n))"

definition hexVal :: "char \<Rightarrow> nat option" where
  "hexVal c =
     (if isDigit c then Some (code c - 48)
      else if 65 \<le> code c \<and> code c \<le> 70 then Some (code c - 55)
      else if 97 \<le> code c \<and> code c \<le> 102 then Some (code c - 87)
      else None)"

definition percentByte :: "char \<Rightarrow> string" where
  "percentByte c = [CHR ''%'', hexDigit (code c div 16), hexDigit (code c mod 16)]"

definition percentEncode :: "(char \<Rightarrow> bool) \<Rightarrow> string \<Rightarrow> string" where
  "percentEncode inSet s = concat (map (\<lambda>c. if inSet c then percentByte c else [c]) s)"

text \<open>\<open>encodeURIComponent\<close> keeps the letters, the digits and \<open>- _ . ! ~ * ' ( )\<close> and
  escapes every other byte of the UTF-8 form. (Its URIError is for a lone surrogate, which
  no UTF-8 string holds.)\<close>

definition uriUnreserved :: "char \<Rightarrow> bool" where
  "uriUnreserved c = (isAlpha c \<or> isDigit c \<or> c \<in> set ''-_.!~*()'' \<or> c = CHR 0x27)"

definition encodeURIComponent :: "string \<Rightarrow> string" where
  "encodeURIComponent s = percentEncode (\<lambda>c. \<not> uriUnreserved c) s"

text \<open>Is a list of bytes the UTF-8 form of one code point (no overlong form, no surrogate,
  nothing above U+10FFFF)?\<close>

definition isContinuation :: "char \<Rightarrow> bool" where
  "isContinuation c = (0x80 \<le> code c \<and> code c \<le> 0xBF)"

definition utf8Length :: "char \<Rightarrow> nat" where
  "utf8Length b =
     (if code b < 0x80 then 1
      else if 0xC0 \<le> code b \<and> code b \<le> 0xDF then 2
      else if 0xE0 \<le> code b \<and> code b \<le> 0xEF then 3
      else if 0xF0 \<le> code b \<and> code b \<le> 0xF7 then 4
      else 0)"

definition validCodePoint :: "string \<Rightarrow> bool" where
  "validCodePoint bs =
     (case bs of
        [a] \<Rightarrow> code a < 0x80
      | [a, b] \<Rightarrow> 0xC2 \<le> code a \<and> code a \<le> 0xDF \<and> isContinuation b
      | [a, b, c] \<Rightarrow>
          0xE0 \<le> code a \<and> code a \<le> 0xEF \<and> isContinuation b \<and> isContinuation c
          \<and> (if code a = 0xE0 then 0xA0 \<le> code b else True)
          \<and> (if code a = 0xED then code b \<le> 0x9F else True)
      | [a, b, c, d] \<Rightarrow>
          0xF0 \<le> code a \<and> code a \<le> 0xF4 \<and> isContinuation b \<and> isContinuation c
          \<and> isContinuation d
          \<and> (if code a = 0xF0 then 0x90 \<le> code b else True)
          \<and> (if code a = 0xF4 then code b \<le> 0x8F else True)
      | _ \<Rightarrow> False)"

text \<open>\<open>decodeURIComponent\<close>: \<open>None\<close> is its URIError. An escape must be \<open>%\<close> and two
  hex digits; an escaped byte of 0x80 or more must start a run of escapes that spell
  one code point in UTF-8.\<close>

datatype token = Lit char | Esc char

fun uriTokens :: "string \<Rightarrow> token list option" where
  "uriTokens [] = Some []"
| "uriTokens (c # cs) =
     (if c = CHR ''%'' then
        (case cs of
           a # b # rest \<Rightarrow>
             (case (hexVal a, hexVal b) of
                (Some x, Some y) \<Rightarrow> map_option ((#) (Esc (char_of (16 * x + y)))) (uriTokens rest)
              | _ \<Rightarrow> None)
         | _ \<Rightarrow> None)
      else map_option ((#) (Lit c)) (uriTokens cs))"

fun escaped :: "token list \<Rightarrow> string option" where
  "escaped [] = Some []"
| "escaped (Esc b # ts) = map_option ((#) b) (escaped ts)"
| "escaped (Lit c # ts) = None"

function decodeTokens :: "token list \<Rightarrow> string option" where
  "decodeTokens [] = Some []"
| "decodeTokens (Lit c # ts) = map_option ((#) c) (decodeTokens ts)"
| "decodeTokens (Esc b # ts) =
     (let n = utf8Length b in
      if n = 0 \<or> length ts < n - 1 then None
      else
        case escaped (take (n - 1) ts) of
          None \<Rightarrow> None
        | Some bs \<Rightarrow>
            if validCodePoint (b # bs) then map_option ((@) (b # bs)) (decodeTokens (drop (n - 1) ts))
            else None)"
  by pat_completeness auto
termination
  by (relation "measure length") simp_all

definition decodeURIComponent :: "string \<Rightarrow> string option" where
  "decodeURIComponent s = (case uriTokens s of None \<Rightarrow> None | Some ts \<Rightarrow> decodeTokens ts)"

subsection \<open>Query strings (\<open>URLSearchParams\<close>)\<close>

text \<open>The lenient percent-decoding of the URL Standard: a \<open>%\<close> that is not followed by
  two hex digits stands for itself.\<close>

fun percentDecode :: "string \<Rightarrow> string" where
  "percentDecode [] = []"
| "percentDecode (c # cs) =
     (if c = CHR ''%'' then
        (case cs of
           a # b # rest \<Rightarrow>
             (case (hexVal a, hexVal b) of
                (Some x, Some y) \<Rightarrow> char_of (16 * x + y) # percentDecode rest
              | _ \<Rightarrow> c # percentDecode cs)
         | _ \<Rightarrow> c # percentDecode cs)
      else c # percentDecode cs)"

text \<open>UTF-8 decoding with replacement, as the Encoding Standard's decoder does it: a byte
  that cannot continue the pending sequence ends it with U+FFFD and is read again as
  the start of the next one. The arguments are the bytes still needed, the bounds for
  the next byte, and the bytes collected so far.\<close>

definition replacement :: string where
  "replacement = [CHR 0xEF, CHR 0xBF, CHR 0xBD]"

function utf8Decode :: "nat \<Rightarrow> nat \<Rightarrow> nat \<Rightarrow> string \<Rightarrow> string \<Rightarrow> string" where
  "utf8Decode need lo hi pending [] = (if need = 0 then [] else replacement)"
| "utf8Decode need lo hi pending (b # bs) =
     (if need = 0 then
        (if code b < 0x80 then b # utf8Decode 0 0x80 0xBF [] bs
         else if 0xC2 \<le> code b \<and> code b \<le> 0xDF then utf8Decode 1 0x80 0xBF [b] bs
         else if 0xE0 \<le> code b \<and> code b \<le> 0xEF then
           utf8Decode 2 (if code b = 0xE0 then 0xA0 else 0x80) (if code b = 0xED then 0x9F else 0xBF)
             [b] bs
         else if 0xF0 \<le> code b \<and> code b \<le> 0xF4 then
           utf8Decode 3 (if code b = 0xF0 then 0x90 else 0x80) (if code b = 0xF4 then 0x8F else 0xBF)
             [b] bs
         else replacement @ utf8Decode 0 0x80 0xBF [] bs)
      else if lo \<le> code b \<and> code b \<le> hi then
        (if need = 1 then pending @ [b] @ utf8Decode 0 0x80 0xBF [] bs
         else utf8Decode (need - 1) 0x80 0xBF (pending @ [b]) bs)
      else replacement @ utf8Decode 0 0x80 0xBF [] (b # bs))"
  by pat_completeness auto
termination
  by (relation "measure (\<lambda>(need, lo, hi, pending, inp). 2 * length inp + (if need = 0 then 0 else 1))")
     simp_all

definition utf8DecodeWithoutBOM :: "string \<Rightarrow> string" where
  "utf8DecodeWithoutBOM s = utf8Decode 0 0x80 0xBF [] s"

fun splitOn :: "(char \<Rightarrow> bool) \<Rightarrow> string \<Rightarrow> string list" where
  "splitOn sep [] = [[]]"
| "splitOn sep (c # cs) =
     (if sep c then [] # splitOn sep cs
      else case splitOn sep cs of [] \<Rightarrow> [[c]] | x # xs \<Rightarrow> (c # x) # xs)"

definition formDecode :: "string \<Rightarrow> string" where
  "formDecode s =
     utf8DecodeWithoutBOM (percentDecode (map (\<lambda>c. if c = CHR ''+'' then CHR '' '' else c) s))"

definition formPair :: "string \<Rightarrow> string \<times> string" where
  "formPair s =
     (formDecode (takeWhile (\<lambda>c. c \<noteq> CHR ''='') s),
      formDecode (drop 1 (dropWhile (\<lambda>c. c \<noteq> CHR ''='') s)))"

definition parseForm :: "string \<Rightarrow> (string \<times> string) list" where
  "parseForm q = map formPair (filter (\<lambda>s. s \<noteq> []) (splitOn (\<lambda>c. c = CHR ''&'') q))"

subsection \<open>The URL parser (\<open>new URL(input)\<close>, no base URL)\<close>

text \<open>
  The parser follows the basic URL parser of the URL Standard, for an input without
  a base URL: the scheme, then by kind of scheme the slashes, the authority, the path
  with its dot segments and percent-encoding, and the query up to the fragment. Of the
  parsed URL the helpers read the path and the query only. Parsing the authority
  (credentials, host and port, with the domain and address rules) is the one part left
  to the platform: the parser takes a predicate \<open>authorityOK scheme text\<close> that says whether
  the text between the slashes and the path is accepted for that scheme.
\<close>

record url =
  url_scheme :: string
  url_pathname :: string
  url_query :: "string option"

type_synonym authority_check = "string \<Rightarrow> string \<Rightarrow> bool"

definition isSpecial :: "string \<Rightarrow> bool" where
  "isSpecial scheme = (scheme \<in> set [''http'', ''https'', ''ftp'', ''ws'', ''wss'', ''file''])"

definition c0ControlSet :: "char \<Rightarrow> bool" where
  "c0ControlSet c = (code c \<le> 0x1F \<or> 0x7E < code c)"

definition querySet :: "char \<Rightarrow> bool" where
  "querySet c = (c0ControlSet c \<or> c \<in> set [CHR '' '', CHR 0x22, CHR ''#'', CHR ''<'', CHR ''>''])"

definition specialQuerySet :: "char \<Rightarrow> bool" where
  "specialQuerySet c = (querySet c \<or> c = CHR 0x27)"

definition pathSet :: "char \<Rightarrow> bool" where
  "pathSet c = (querySet c \<or> c \<in> set [CHR ''?'', CHR ''^'', CHR 0x60, CHR ''{'', CHR ''}''])"

definition isSlash :: "char \<Rightarrow> bool" where
  "isSlash c = (c = CHR ''/'' \<or> c = CHR 0x5C)"

text \<open>Leading and trailing C0 controls and spaces are stripped, then every tab and
  newline is removed.\<close>

definition stripInput :: "string \<Rightarrow> string" where
  "stripInput s =
     filter (\<lambda>c. c \<noteq> CHR 0x09 \<and> c \<noteq> CHR 0x0A \<and> c \<noteq> CHR 0x0D)
       (rev (dropWhile (\<lambda>c. code c \<le> 0x20) (rev (dropWhile (\<lambda>c. code c \<le> 0x20) s))))"

definition schemeChar :: "char \<Rightarrow> bool" where
  "schemeChar c = (isAlpha c \<or> isDigit c \<or> c = CHR ''+'' \<or> c = CHR ''-'' \<or> c = CHR ''.'')"

definition splitScheme :: "string \<Rightarrow> (string \<times> string) option" where
  "splitScheme s =
     (case s of
        [] \<Rightarrow> None
      | c # cs \<Rightarrow>
          if \<not> isAlpha c then None
          else
            case dropWhile schemeChar s of
              [] \<Rightarrow> None
            | d # rest \<Rightarrow>
                if d = CHR '':'' then Some (map toLower (takeWhile schemeChar s), rest) else None)"

definition isPathEnd :: "char \<Rightarrow> bool" where
  "isPathEnd c = (c = CHR ''?'' \<or> c = CHR ''#'')"

text \<open>The query, from the input that is left after the path.\<close>

definition queryOf :: "bool \<Rightarrow> string \<Rightarrow> string option" where
  "queryOf special rest =
     (case rest of
        [] \<Rightarrow> None
      | c # cs \<Rightarrow>
          if c = CHR ''?'' then
            Some (percentEncode (if special then specialQuerySet else querySet)
                    (takeWhile (\<lambda>c. c \<noteq> CHR ''#'') cs))
          else None)"

definition isSingleDot :: "string \<Rightarrow> bool" where
  "isSingleDot seg = (map toLower seg \<in> set [''.'', ''%2e''])"

definition isDoubleDot :: "string \<Rightarrow> bool" where
  "isDoubleDot seg = (map toLower seg \<in> set [''..'', ''.%2e'', ''%2e.'', ''%2e%2e''])"

definition isDriveLetter :: "string \<Rightarrow> bool" where
  "isDriveLetter s =
     (case s of [a, b] \<Rightarrow> isAlpha a \<and> (b = CHR '':'' \<or> b = CHR ''|'') | _ \<Rightarrow> False)"

definition shorten :: "string \<Rightarrow> string list \<Rightarrow> string list" where
  "shorten scheme path =
     (if scheme = ''file'' \<and> length path = 1 \<and> isDriveLetter (hd path) \<and> last (hd path) = CHR '':''
      then path else butlast path)"

text \<open>The path state, one raw segment at a time; the last segment is the one that ends
  at the query, the fragment or the end of the input.\<close>

fun pathSegments :: "string \<Rightarrow> string list \<Rightarrow> string list \<Rightarrow> string list" where
  "pathSegments scheme path [] = path"
| "pathSegments scheme path (seg # segs) =
     (let buffer = percentEncode pathSet seg in
      pathSegments scheme
        (if isDoubleDot buffer then
           (if segs = [] then shorten scheme path @ [[]] else shorten scheme path)
         else if isSingleDot buffer then
           (if segs = [] then path @ [[]] else path)
         else
           path @ [if scheme = ''file'' \<and> path = [] \<and> isDriveLetter buffer
                   then [hd buffer, CHR '':''] else buffer])
        segs)"

definition serializePath :: "string list \<Rightarrow> string" where
  "serializePath path = concat (map (\<lambda>seg. CHR ''/'' # seg) path)"

definition pathState :: "string \<Rightarrow> string \<Rightarrow> url" where
  "pathState scheme inp =
     (let special = isSpecial scheme;
          text = takeWhile (\<lambda>c. \<not> isPathEnd c) inp;
          rest = dropWhile (\<lambda>c. \<not> isPathEnd c) inp
      in \<lparr>url_scheme = scheme,
          url_pathname =
            serializePath (pathSegments scheme []
              (splitOn (\<lambda>c. c = CHR ''/'' \<or> (special \<and> c = CHR 0x5C)) text)),
          url_query = queryOf special rest\<rparr>)"

definition pathStartState :: "string \<Rightarrow> string \<Rightarrow> url" where
  "pathStartState scheme inp =
     (if isSpecial scheme then
        pathState scheme (case inp of [] \<Rightarrow> [] | c # cs \<Rightarrow> if isSlash c then cs else inp)
      else
        case inp of
          [] \<Rightarrow> \<lparr>url_scheme = scheme, url_pathname = [], url_query = None\<rparr>
        | c # cs \<Rightarrow>
            if isPathEnd c then
              \<lparr>url_scheme = scheme, url_pathname = [], url_query = queryOf False inp\<rparr>
            else pathState scheme (if c = CHR ''/'' then cs else inp))"

definition authorityState :: "authority_check \<Rightarrow> string \<Rightarrow> string \<Rightarrow> url option" where
  "authorityState authorityOK scheme inp =
     (let special = isSpecial scheme;
          inside = (\<lambda>c. \<not> (c = CHR ''/'' \<or> isPathEnd c \<or> (special \<and> c = CHR 0x5C)))
      in if authorityOK scheme (takeWhile inside inp)
         then Some (pathStartState scheme (dropWhile inside inp)) else None)"

definition opaquePathState :: "string \<Rightarrow> string \<Rightarrow> url" where
  "opaquePathState scheme inp =
     \<lparr>url_scheme = scheme,
      url_pathname = percentEncode c0ControlSet (takeWhile (\<lambda>c. \<not> isPathEnd c) inp),
      url_query = queryOf False (dropWhile (\<lambda>c. \<not> isPathEnd c) inp)\<rparr>"

definition fileHostState :: "authority_check \<Rightarrow> string \<Rightarrow> url option" where
  "fileHostState authorityOK inp =
     (let inside = (\<lambda>c. \<not> (isSlash c \<or> isPathEnd c));
          buffer = takeWhile inside inp;
          rest = dropWhile inside inp
      in if isDriveLetter buffer then Some (pathState ''file'' (buffer @ rest))
         else if buffer = [] then Some (pathStartState ''file'' rest)
         else if authorityOK ''file'' buffer then Some (pathStartState ''file'' rest)
         else None)"

definition fileState :: "authority_check \<Rightarrow> string \<Rightarrow> url option" where
  "fileState authorityOK inp =
     (case inp of
        [] \<Rightarrow> Some (pathState ''file'' [])
      | c # cs \<Rightarrow>
          if isSlash c then
            (case cs of
               [] \<Rightarrow> Some (pathState ''file'' [])
             | d # ds \<Rightarrow>
                 if isSlash d then fileHostState authorityOK ds else Some (pathState ''file'' cs))
          else Some (pathState ''file'' inp))"

definition parseURL :: "authority_check \<Rightarrow> string \<Rightarrow> url option" where
  "parseURL authorityOK inp =
     (case splitScheme (stripInput inp) of
        None \<Rightarrow> None
      | Some (scheme, rest) \<Rightarrow>
          if scheme = ''file'' then fileState authorityOK rest
          else if isSpecial scheme then
            authorityState authorityOK scheme (dropWhile isSlash rest)
          else
            case rest of
              [] \<Rightarrow> Some (opaquePathState scheme [])
            | c # cs \<Rightarrow>
                if c = CHR ''/'' then
                  (case cs of
                     [] \<Rightarrow> Some (pathState scheme [])
                   | d # ds \<Rightarrow>
                       if d = CHR ''/'' then authorityState authorityOK scheme ds
                       else Some (pathState scheme cs))
                else Some (opaquePathState scheme rest))"

text \<open>\<open>url.searchParams.get(name)\<close>: the first value under that name.\<close>

definition searchParamsGet :: "url \<Rightarrow> string \<Rightarrow> string option" where
  "searchParamsGet u name =
     (case url_query u of None \<Rightarrow> None | Some q \<Rightarrow> map_of (parseForm q) name)"

subsection \<open>\<open>getImageProxyUrl\<close> and \<open>extractS3KeyFromUrl\<close>\<close>

text \<open>Both helpers split the path at \<open>/\<close>, look for the first part equal to the bucket
  name and, when a part follows it, join what follows with \<open>/\<close>.\<close>

definition bucketName :: string where
  "bucketName = ''aura-ai-users''"

definition keyAfterBucket :: "string \<Rightarrow> string option" where
  "keyAfterBucket path =
     (case dropWhile (\<lambda>part. part \<noteq> bucketName) (splitOn (\<lambda>c. c = CHR ''/'') path) of
        [] \<Rightarrow> None
      | bucket # following \<Rightarrow> if following = [] then None else Some (joinWith ''/'' following))"

definition getImageProxyUrl :: "authority_check \<Rightarrow> string \<Rightarrow> string \<Rightarrow> string" where
  "getImageProxyUrl authorityOK s3Url name =
     (if s3Url = [] \<or> name = [] then s3Url
      else
        case parseURL authorityOK s3Url of
          None \<Rightarrow> s3Url
        | Some u \<Rightarrow>
            (case keyAfterBucket (url_pathname u) of
               None \<Rightarrow> s3Url
             | Some s3Key \<Rightarrow>
                 API_BASE_URL @ ''/api/image-proxy/'' @ name
                   @ ''?s3_key='' @ encodeURIComponent s3Key
                   @ ''&image_url='' @ encodeURIComponent s3Url))"

definition extractS3KeyFromUrl :: "authority_check \<Rightarrow> string \<Rightarrow> string option" where
  "extractS3KeyFromUrl authorityOK photoUrl =
     (if photoUrl = [] then None
      else
        case parseURL authorityOK photoUrl of
          None \<Rightarrow> None
        | Some u \<Rightarrow>
            (case searchParamsGet u ''s3_key'' of
               Some s3KeyParam \<Rightarrow>
                 if s3KeyParam \<noteq> [] then decodeURIComponent s3KeyParam
                 else keyAfterBucket (url_pathname u)
             | None \<Rightarrow> keyAfterBucket (url_pathname u)))"

text \<open>An authority check for the examples: a non-empty name of lower-case letters,
  digits, dots and hyphens, which every platform accepts as a host.\<close>

definition plainHost :: authority_check where
  "plainHost scheme text =
     (text \<noteq> [] \<and> list_all (\<lambda>c. (97 \<le> code c \<and> code c \<le> 122) \<or> isDigit c \<or> c = CHR ''.'' \<or> c = CHR ''-'') text)"

text \<open>For the proofs: the characters \<open>encodeURIComponent\<close> can produce, the host of the
  API base URL, the shape of a proxy URL's query, and two photo URLs, the second with an
  \<open>s3_key\<close> parameter of its own.\<close>

definition encChar :: "char \<Rightarrow> bool" where
  "encChar c = (uriUnreserved c \<or> c = CHR ''%'')"

definition apiHost :: string where
  "apiHost = ''aura-ai-997596012968.us-central1.run.app''"

definition isQueryTail :: "string \<Rightarrow> string \<Rightarrow> string \<Rightarrow> bool" where
  "isQueryTail q a b =
     (q = ''s3_key='' @ a @ ''&image_url='' @ b \<and> b \<noteq> [] \<and> (\<forall>c \<in> set a. encChar c)
      \<and> (\<forall>c \<in> set b. encChar c))"

definition s3Example :: string where
  "s3Example = ''https://s3.amazonaws.com/aura-ai-users/users/bob/a.jpg?X-Amz-Expires=3600''"

definition paramExample :: string where
  "paramExample = ''https://s3.amazonaws.com/aura-ai-users/k?s3_key=zzz''"

section \<open>The chat session controller (\<open>pages/Chat.jsx\<close>)\<close>

text \<open>
  The persisted user record, as \<open>JSON.parse(localStorage.getItem('user'))\<close> gives it: the
  identifier and the display name are strings when present, \<open>profile.photo_urls\<close> is a
  list of photo references when present.
\<close>

record profile =
  photo_urls :: "string list option"

record user =
  user_id :: "string option"
  username :: "string option"
  profile :: "profile option"

text \<open>The component's state (\<open>useState\<close>); \<open>activeChat\<close> is \<open>JNull\<close> when no chat is
  selected.\<close>

record controller =
  user :: "user option"
  chats :: "jsval list"
  activeChat :: jsval
  messages :: "jsval list"
  input :: string
  isSending :: bool

text \<open>
  A handler of the component is a closure over the state of the render that created it:
  it reads that snapshot and asks for changes through the setters. It is modelled as
  a function from the snapshot (and the network) to the actions it performs, in order:
  setter calls, navigation, HTTP requests and speech output. \<open>AppendMessage m\<close> is
  \<open>setMessages(prev => [...prev, m])\<close>, \<open>NavigateAfter ms p\<close> is
  \<open>setTimeout(() => navigate(p), ms)\<close>.
\<close>

datatype action =
    SetUser user
  | SetChats "jsval list"
  | SetActiveChat jsval
  | SetMessages "jsval list"
  | AppendMessage jsval
  | SetInput string
  | SetIsSending bool
  | Navigate string
  | NavigateAfter nat string
  | Fetch request
  | Speak jsval

fun perform :: "controller \<Rightarrow> action \<Rightarrow> controller" where
  "perform c (SetUser u) = c\<lparr>user := Some u\<rparr>"
| "perform c (SetChats cs) = c\<lparr>chats := cs\<rparr>"
| "perform c (SetActiveChat ch) = c\<lparr>activeChat := ch\<rparr>"
| "perform c (SetMessages ms) = c\<lparr>messages := ms\<rparr>"
| "perform c (AppendMessage m) = c\<lparr>messages := messages c @ [m]\<rparr>"
| "perform c (SetInput s) = c\<lparr>input := s\<rparr>"
| "perform c (SetIsSending b) = c\<lparr>isSending := b\<rparr>"
| "perform c (Navigate p) = c"
| "perform c (NavigateAfter ms p) = c"
| "perform c (Fetch r) = c"
| "perform c (Speak t) = c"

definition run :: "controller \<Rightarrow> action list \<Rightarrow> controller" where
  "run c acts = foldl perform c acts"

text \<open>How an async handler's promise settles.\<close>

datatype settled = Fulfilled | Rejected string

text \<open>Truthiness of an optional string field, its rendering in a template literal, and
  \<open>user.user_id || `user_${user.username}`\<close>.\<close>

definition filled :: "string option \<Rightarrow> bool" where
  "filled x = (case x of None \<Rightarrow> False | Some s \<Rightarrow> s \<noteq> [])"

definition templ :: "string option \<Rightarrow> string" where
  "templ x = (case x of None \<Rightarrow> ''undefined'' | Some s \<Rightarrow> s)"

definition resolveUserId :: "user \<Rightarrow> string" where
  "resolveUserId u = (if filled (user_id u) then the (user_id u) else ''user_'' @ templ (username u))"

text \<open>\<open>chat.messages || []\<close>: the data model has a message list in this field; a falsy
  value is read as no messages.\<close>

definition chatMessages :: "jsval \<Rightarrow> jsval list" where
  "chatMessages v = (case js_or v (JArr []) of JArr ms \<Rightarrow> ms | _ \<Rightarrow> [])"

text \<open>\<open>fetchChatsWithUserId\<close> (the same in both versions of the page). Its \<open>try\<close> block
  also covers the read of \<open>firstChat.messages\<close>, which throws when the first element of
  the list is \<open>null\<close>; the \<open>catch\<close> block empties the chat list.\<close>

definition fetchChatsWithUserId :: "controller \<Rightarrow> network \<Rightarrow> string \<Rightarrow> action list" where
  "fetchChatsWithUserId c fetch uid =
     (if uid = [] then []
      else
        case getChats fetch uid of (res, reqs) \<Rightarrow>
          map Fetch reqs @
          (case res of
             Inl err \<Rightarrow> [SetChats []]
           | Inr data \<Rightarrow>
               (case data of
                  JArr ds \<Rightarrow>
                    SetChats ds #
                    (case ds of
                       [] \<Rightarrow> [SetActiveChat JNull, SetMessages []]
                     | firstChat # rest \<Rightarrow>
                         if \<not> truthy (activeChat c) then
                           SetActiveChat firstChat #
                           (case getp firstChat ''messages'' of
                              Inl err \<Rightarrow> [SetChats []]
                            | Inr ms \<Rightarrow> [SetMessages (chatMessages ms)])
                         else [])
                | _ \<Rightarrow> [SetChats []])))"

definition fetchChats :: "controller \<Rightarrow> network \<Rightarrow> action list" where
  "fetchChats c fetch =
     (case user c of
        None \<Rightarrow> []
      | Some u \<Rightarrow>
          if \<not> filled (user_id u) then [] else fetchChatsWithUserId c fetch (resolveUserId u))"

text \<open>The two effects that run when the page is opened. The first runs once on mount,
  with what local storage holds under \<open>user\<close>; the second runs after a render in which
  \<open>user?.username\<close> has changed.\<close>

definition hasNoPhotos :: "user \<Rightarrow> bool" where
  "hasNoPhotos u =
     (case profile u of
        None \<Rightarrow> True
      | Some p \<Rightarrow> (case photo_urls p of None \<Rightarrow> True | Some urls \<Rightarrow> urls = []))"

definition mountEffect :: "controller \<Rightarrow> network \<Rightarrow> user option \<Rightarrow> action list" where
  "mountEffect c fetch storedUser =
     (case storedUser of
        None \<Rightarrow> [Navigate ''/login'']
      | Some parsedUser \<Rightarrow>
          SetUser parsedUser #
          (if hasNoPhotos parsedUser then [Navigate ''/dashboard'']
           else if filled (user_id parsedUser) then
             fetchChatsWithUserId c fetch (resolveUserId parsedUser)
           else []))"

definition backupEffect :: "controller \<Rightarrow> network \<Rightarrow> action list" where
  "backupEffect c fetch =
     (case user c of
        None \<Rightarrow> []
      | Some u \<Rightarrow> if filled (username u) then fetchChats c fetch else [])"

subsection \<open>The send protocol\<close>

definition userMessage :: "string \<Rightarrow> jsval" where
  "userMessage messageText = JObj [(''role'', JStr ''user''), (''content'', JStr messageText)]"

definition assistantMessage :: "jsval \<Rightarrow> jsval" where
  "assistantMessage resp =
     JObj [(''role'', JStr ''assistant''),
           (''content'', field resp ''response''),
           (''ranked_products'', js_or (field resp ''ranked_products'') JNull),
           (''styled_products'', js_or (field resp ''styled_products'') JNull),
           (''products'',
              js_or (js_or (field resp ''ranked_products'') (field resp ''styled_products'')) JNull),
           (''merged_images'', js_or (field resp ''merged_images'') JNull)]"

definition photoNeedle :: string where
  "photoNeedle = ''upload at least one photo''"

definition photoGuidance :: string where
  "photoGuidance = ''Please upload at least one photo in your dashboard before starting a chat. This helps us personalize product recommendations for you.''"

definition sendFallback :: string where
  "sendFallback = ''Failed to send message. Please try again.''"

text \<open>The \<open>try\<close> block of the send protocol: \<open>Inl m\<close> when an \<open>Error\<close> with message
  \<open>m\<close> is thrown inside it (the rejection of \<open>sendChatMessage\<close>, or the TypeError of
  reading \<open>response.response\<close> when the body is \<open>null\<close>), together with the actions
  performed up to there. \<open>speak\<close> is set in the voice version, which hands the reply to
  the speech output and swallows its failure.\<close>

definition sendTry :: "bool \<Rightarrow> controller \<Rightarrow> network \<Rightarrow> user \<Rightarrow> string \<Rightarrow> (string + unit) \<times> action list" where
  "sendTry speak c fetch u messageText =
     (let userId = resolveUserId u;
          threadId = js_or (js_or (field (activeChat c) ''chat_room_id'') (field (activeChat c) ''id''))
                           (field (activeChat c) ''chat_id'')
      in case sendChatMessage fetch messageText userId threadId of (res, reqs) \<Rightarrow>
           (case res of
              Inl m \<Rightarrow> (Inl m, map Fetch reqs)
            | Inr resp \<Rightarrow>
                (case getp resp ''response'' of
                   Inl m \<Rightarrow> (Inl m, map Fetch reqs)
                 | Inr reply \<Rightarrow>
                     (Inr (),
                      map Fetch reqs
                      @ (if truthy reply then
                           AppendMessage (assistantMessage resp) # (if speak then [Speak reply] else [])
                         else [])
                      @ (if filled (user_id u) then fetchChatsWithUserId c fetch (resolveUserId u)
                         else [])))))"

text \<open>The \<open>catch\<close> block.\<close>

definition sendCatch :: "string \<Rightarrow> action list" where
  "sendCatch m =
     (if m \<noteq> [] \<and> includes_str m photoNeedle then
        [AppendMessage (JObj [(''role'', JStr ''assistant''), (''content'', JStr photoGuidance)]),
         NavigateAfter 3000 ''/dashboard'']
      else
        [AppendMessage (JObj [(''role'', JStr ''assistant''),
           (''content'', JStr (''Error: '' @ (if m \<noteq> [] then m else sendFallback)))])])"

text \<open>\<open>try { ... } catch (error) { ... } finally { setIsSending(false) }\<close>\<close>

definition sendProtocol :: "bool \<Rightarrow> controller \<Rightarrow> network \<Rightarrow> user \<Rightarrow> string \<Rightarrow> action list" where
  "sendProtocol speak c fetch u messageText =
     (case sendTry speak c fetch u messageText of (r, acts) \<Rightarrow>
        acts @ (case r of Inl m \<Rightarrow> sendCatch m | Inr _ \<Rightarrow> []) @ [SetIsSending False])"

text \<open>\<open>sendMessage\<close> (typed input, first version of the page) and \<open>sendMessageFromText\<close>
  (voice input, second version). \<open>e.preventDefault()\<close> acts on the DOM event only.\<close>

definition sendMessage :: "controller \<Rightarrow> network \<Rightarrow> action list \<times> settled" where
  "sendMessage c fetch =
     (if trim (input c) = [] \<or> isSending c then ([], Fulfilled)
      else
        case user c of
          None \<Rightarrow> ([], Fulfilled)
        | Some u \<Rightarrow>
            if \<not> filled (username u) \<or> \<not> truthy (activeChat c) then ([], Fulfilled)
            else
              let messageText = trim (input c) in
              ([AppendMessage (userMessage messageText), SetInput [], SetIsSending True]
               @ sendProtocol False c fetch u messageText, Fulfilled))"

definition sendMessageFromText :: "controller \<Rightarrow> network \<Rightarrow> string \<Rightarrow> action list \<times> settled" where
  "sendMessageFromText c fetch messageText =
     (if trim messageText = [] \<or> isSending c then ([], Fulfilled)
      else
        case user c of
          None \<Rightarrow> ([], Fulfilled)
        | Some u \<Rightarrow>
            if \<not> filled (username u) \<or> \<not> truthy (activeChat c) then ([], Fulfilled)
            else
              ([AppendMessage (userMessage messageText), SetIsSending True]
               @ sendProtocol True c fetch u messageText, Fulfilled))"

section \<open>Observations on a handler's actions\<close>

text \<open>The messages a handler appends, in order; the role of a message; \<open>Array.isArray\<close>;
  the actions that navigate and those that issue a request; the thread identifier the
  send protocol passes on.\<close>

fun appendedMessages :: "action list \<Rightarrow> jsval list" where
  "appendedMessages [] = []"
| "appendedMessages (AppendMessage m # acts) = m # appendedMessages acts"
| "appendedMessages (a # acts) = appendedMessages acts"

definition hasRole :: "string \<Rightarrow> jsval \<Rightarrow> bool" where
  "hasRole r m = (field m ''role'' = JStr r)"

fun isArray :: "jsval \<Rightarrow> bool" where
  "isArray (JArr xs) = True"
| "isArray v = False"

fun isNavigation :: "action \<Rightarrow> bool" where
  "isNavigation (Navigate p) = True"
| "isNavigation (NavigateAfter ms p) = True"
| "isNavigation a = False"

fun isFetch :: "action \<Rightarrow> bool" where
  "isFetch (Fetch r) = True"
| "isFetch a = False"

definition threadIdOf :: "jsval \<Rightarrow> jsval" where
  "threadIdOf chat =
     js_or (js_or (field chat ''chat_room_id'') (field chat ''id'')) (field chat ''chat_id'')"

text \<open>The guard of the send protocol: it goes on for this text.\<close>

definition sendable :: "controller \<Rightarrow> string \<Rightarrow> user \<Rightarrow> bool" where
  "sendable c text u =
     (trim text \<noteq> [] \<and> \<not> isSending c \<and> user c = Some u \<and> filled (username u)
      \<and> truthy (activeChat c))"

section \<open>Concrete scenarios\<close>

text \<open>The state of a freshly mounted page, three persisted users (one with a photo, one
  without, one whose record has an identifier and a photo but no name), a chat as the page
  holds it and as the server holds it, and four networks:
  one that answers, one without connectivity (\<open>fetch\<close> rejects with the browser's
  \<open>TypeError\<close>), one whose chat endpoint answers with an object instead of a list,
  and one that refuses the message for the missing photo.\<close>

definition initialController :: controller where
  "initialController =
     \<lparr>user = None, chats = [], activeChat = JNull, messages = [], input = [], isSending = False\<rparr>"

definition bob :: user where
  "bob = \<lparr>user_id = Some ''user_bob'', username = Some ''bob'',
           profile = Some \<lparr>photo_urls = Some [''users/bob/profile/a.jpg'']\<rparr>\<rparr>"

definition bobNoPhotos :: user where
  "bobNoPhotos = \<lparr>user_id = Some ''user_bob'', username = Some ''bob'',
                   profile = Some \<lparr>photo_urls = Some []\<rparr>\<rparr>"

definition nameless :: user where
  "nameless = \<lparr>user_id = Some ''user_bob'', username = None,
                profile = Some \<lparr>photo_urls = Some [''users/bob/profile/a.jpg'']\<rparr>\<rparr>"

definition localChat :: jsval where
  "localChat = JObj [(''id'', JStr ''c1''), (''messages'', JArr [])]"

definition serverChat :: jsval where
  "serverChat =
     JObj [(''id'', JStr ''c1''),
           (''messages'',
              JArr [userMessage ''hi'',
                    JObj [(''type'', JStr ''progress''), (''content'', JStr ''Searching'')],
                    JObj [(''role'', JStr ''assistant''), (''content'', JStr ''hello'')]])]"

definition exampleReply :: jsval where
  "exampleReply =
     JObj [(''response'', JStr ''hello''),
           (''ranked_products'', JArr [JObj [(''id'', JStr ''r1'')]]),
           (''styled_products'', JArr [JObj [(''id'', JStr ''s1'')]])]"

definition exampleController :: controller where
  "exampleController =
     \<lparr>user = Some bob, chats = [localChat], activeChat = localChat, messages = [],
      input = ''hi'', isSending = False\<rparr>"

definition exampleServer :: network where
  "exampleServer r =
     (if req_method r = ''POST'' then
        FetchResolves \<lparr>ok = True, statusText = ''OK'', json = Inr exampleReply\<rparr>
      else FetchResolves \<lparr>ok = True, statusText = ''OK'', json = Inr (JArr [serverChat])\<rparr>)"

text \<open>The page after it was opened with the nameless record against the answering server.\<close>

definition namelessPage :: controller where
  "namelessPage = run initialController (mountEffect initialController exampleServer (Some nameless))"

definition offline :: network where
  "offline = (\<lambda>r. FetchRejects (ErrorInstance ''Failed to fetch''))"

definition wrongShapeServer :: network where
  "wrongShapeServer =
     (\<lambda>r. FetchResolves \<lparr>ok = True, statusText = ''OK'', json = Inr (JObj [(''chats'', JArr [])])\<rparr>)"

definition photoRefusal :: string where
  "photoRefusal = ''Please upload at least one photo before chatting''"

definition photoServer :: network where
  "photoServer =
     (\<lambda>r. FetchResolves \<lparr>ok = False, statusText = ''Bad Request'',
                            json = Inr (JObj [(''detail'', JStr photoRefusal)])\<rparr>)"

section \<open>Properties of the send protocol and of the chat list\<close>

subsection \<open>Auxiliary facts\<close>

lemma run_Nil: "run c [] = c"
  by (simp add: run_def)

lemma run_Cons: "run c (a # acts) = run (perform c a) acts"
  by (simp add: run_def)

lemma run_append: "run c (xs @ ys) = run (run c xs) ys"
  by (simp add: run_def)

lemma run_map_Fetch [simp]: "run c (map Fetch rs) = c"
  by (induction rs arbitrary: c) (simp_all add: run_Nil run_Cons)

lemma appended_append [simp]:
  "appendedMessages (xs @ ys) = appendedMessages xs @ appendedMessages ys"
  by (induction xs rule: appendedMessages.induct) auto

lemma appended_map_Fetch [simp]: "appendedMessages (map Fetch rs) = []"
  by (induction rs) auto

lemma navigation_map_Fetch [simp]: "filter isNavigation (map Fetch rs) = []"
  by (induction rs) simp_all

lemma appended_fetchChats [simp]: "appendedMessages (fetchChatsWithUserId c fetch uid) = []"
  by (auto simp: fetchChatsWithUserId_def split: prod.splits sum.splits jsval.splits list.splits)

lemma hasRole_userMessage [simp]:
  "hasRole ''user'' (userMessage t)" "\<not> hasRole ''assistant'' (userMessage t)"
  by (simp_all add: hasRole_def userMessage_def field_def)

lemma hasRole_assistantMessage [simp]:
  "hasRole ''assistant'' (assistantMessage r)" "\<not> hasRole ''user'' (assistantMessage r)"
  by (simp_all add: hasRole_def assistantMessage_def field_def)

lemma hasRole_rendered [simp]:
  "hasRole ''assistant'' (JObj [(''role'', JStr ''assistant''), (''content'', x)])"
  "\<not> hasRole ''user'' (JObj [(''role'', JStr ''assistant''), (''content'', x)])"
  by (simp_all add: hasRole_def field_def)

text \<open>The \<open>try\<close> block with the thread identifier named.\<close>

lemma sendTry_threadId:
  "sendTry speak c fetch u text =
     (case sendChatMessage fetch text (resolveUserId u) (threadIdOf (activeChat c)) of
        (res, reqs) \<Rightarrow>
           (case res of
              Inl m \<Rightarrow> (Inl m, map Fetch reqs)
            | Inr resp \<Rightarrow>
                (case getp resp ''response'' of
                   Inl m \<Rightarrow> (Inl m, map Fetch reqs)
                 | Inr reply \<Rightarrow>
                     (Inr (),
                      map Fetch reqs
                      @ (if truthy reply then
                           AppendMessage (assistantMessage resp) # (if speak then [Speak reply] else [])
                         else [])
                      @ (if filled (user_id u) then fetchChatsWithUserId c fetch (resolveUserId u)
                         else [])))))"
  by (simp add: sendTry_def threadIdOf_def Let_def)

lemma sendMessage_sendable:
  "sendable c (input c) u \<Longrightarrow>
   sendMessage c fetch =
     ([AppendMessage (userMessage (trim (input c))), SetInput [], SetIsSending True]
        @ sendProtocol False c fetch u (trim (input c)), Fulfilled)"
  by (simp add: sendable_def sendMessage_def Let_def)

lemma sendMessageFromText_sendable:
  "sendable c text u \<Longrightarrow>
   sendMessageFromText c fetch text =
     ([AppendMessage (userMessage text), SetIsSending True]
        @ sendProtocol True c fetch u text, Fulfilled)"
  by (simp add: sendable_def sendMessageFromText_def)

lemma appended_sendCatch:
  "appendedMessages (sendCatch m) =
     [JObj [(''role'', JStr ''assistant''),
            (''content'', JStr (if includes_str m photoNeedle then photoGuidance
                                else ''Error: '' @ (if m \<noteq> [] then m else sendFallback)))]]"
  by (cases m) (simp_all add: sendCatch_def photoNeedle_def)

lemma navigation_sendCatch:
  "filter isNavigation (sendCatch m) =
     (if includes_str m photoNeedle then [NavigateAfter 3000 ''/dashboard''] else [])"
  by (cases m) (simp_all add: sendCatch_def photoNeedle_def)

lemma appended_sendProtocol:
  "length (appendedMessages (sendProtocol speak c fetch u text)) \<le> 1"
  "\<forall>m \<in> set (appendedMessages (sendProtocol speak c fetch u text)).
      hasRole ''assistant'' m \<and> \<not> hasRole ''user'' m"
  by (auto simp: sendProtocol_def sendTry_threadId appended_sendCatch split: prod.splits sum.splits)

lemma isSending_sendProtocol:
  "isSending (run c' (sendProtocol speak c fetch u text)) = False"
  by (simp add: sendProtocol_def run_append run_Cons run_Nil split: prod.splits)

lemma role_count:
  assumes "length ms \<le> 1"
    and "\<forall>m \<in> set ms. hasRole ''assistant'' m \<and> \<not> hasRole ''user'' m"
  shows "length (filter (hasRole ''user'') ms) = 0 \<and> length (filter (hasRole ''assistant'') ms) \<le> 1"
  using assms by (cases ms) auto

text \<open>What a re-fetch does to the state while a chat is active and the server answers
  with a list.\<close>

lemma run_fetchChats_active:
  assumes "truthy (activeChat c)" and "fst (getChats fetch uid) = Inr (JArr ds)"
  shows "run c' (fetchChatsWithUserId c fetch uid) =
           (if ds = [] then c'\<lparr>chats := ds, activeChat := JNull, messages := []\<rparr>
            else c'\<lparr>chats := ds\<rparr>)"
proof -
  from assms(2) have "uid \<noteq> []" by (auto simp: getChats_def)
  moreover obtain reqs where "getChats fetch uid = (Inr (JArr ds), reqs)"
    using assms(2) by (cases "getChats fetch uid") auto
  ultimately show ?thesis using assms(1)
    by (cases ds) (simp_all add: fetchChatsWithUserId_def run_append run_Cons run_Nil)
qed

text \<open>The actions of a send whose request succeeds with a non-empty reply.\<close>

lemma sendMessage_success_actions:
  assumes "sendable c (input c) u"
    and "fst (sendChatMessage fetch (trim (input c)) (resolveUserId u) (threadIdOf (activeChat c)))
           = Inr resp"
    and "field resp ''response'' = JStr reply" and "reply \<noteq> []"
  shows "fst (sendMessage c fetch) =
      [AppendMessage (userMessage (trim (input c))), SetInput [], SetIsSending True]
      @ map Fetch (snd (sendChatMessage fetch (trim (input c)) (resolveUserId u)
                          (threadIdOf (activeChat c))))
      @ [AppendMessage (assistantMessage resp)]
      @ (if filled (user_id u) then fetchChatsWithUserId c fetch (resolveUserId u) else [])
      @ [SetIsSending False]"
proof -
  obtain reqs where r:
    "sendChatMessage fetch (trim (input c)) (resolveUserId u) (threadIdOf (activeChat c))
       = (Inr resp, reqs)"
    using assms(2)
    by (cases "sendChatMessage fetch (trim (input c)) (resolveUserId u) (threadIdOf (activeChat c))")
       auto
  have nn: "\<not> nullish resp" using assms(3) by (auto simp: nullish_def field_def)
  show ?thesis
    using assms(3,4) nn
    by (simp add: sendMessage_sendable [OF assms(1)] sendProtocol_def sendTry_threadId r getp_def)
qed

lemma trim_examples:
  "trim ''hi'' = ''hi''" "trim ''user_bob'' = ''user_bob''" "trim ''   '' = []"
  by code_simp+

lemma sendable_example: "sendable exampleController (input exampleController) bob"
  by code_simp

lemma example_calls:
  "getChats exampleServer ''user_bob'' =
     (Inr (JArr [serverChat]),
      [\<lparr>req_method = ''GET'', req_url = API_BASE_URL @ ''/api/chats/user_bob'', req_body = None\<rparr>])"
  "fst (sendChatMessage exampleServer ''hi'' ''user_bob'' t) = Inr exampleReply"
  by (simp_all add: getChats_def sendChatMessage_def trim_examples exampleServer_def
      tryRequest_def catchRequest_def Let_def)

lemma example_facts:
  "trim (input exampleController) = ''hi''" "resolveUserId bob = ''user_bob''"
  "messages exampleController = []" "filled (user_id bob)"
  by (simp_all add: exampleController_def trim_examples resolveUserId_def bob_def filled_def)

subsection \<open>Reconciliation after a successful send\<close>

text \<open>
  Claim C1, as amended. A send (typed input) whose request succeeds with a non-empty reply
  string appends exactly one assistant message. When the user record has a
  \<open>user_id\<close> and \<open>getChats\<close> then answers with a list, the chat list becomes that
  list. The working message list is not replaced while a chat is active: after the send
  it is the previous list followed by the user message and the assistant message, and
  the active chat is kept; only an empty list from the server clears both. The sending
  flag is off at the end.
\<close>

theorem send_refetch_keeps_messages:
  assumes "sendable c (input c) u"
    and "fst (sendChatMessage fetch (trim (input c)) (resolveUserId u) (threadIdOf (activeChat c)))
           = Inr resp"
    and "field resp ''response'' = JStr reply" and "reply \<noteq> []"
    and "filled (user_id u)"
    and "fst (getChats fetch (resolveUserId u)) = Inr (JArr ds)"
  shows "(let acts = fst (sendMessage c fetch); c' = run c acts in
           filter (hasRole ''assistant'') (appendedMessages acts) = [assistantMessage resp]
         \<and> chats c' = ds
         \<and> messages c' = (if ds = [] then []
                          else messages c @ [userMessage (trim (input c)), assistantMessage resp])
         \<and> activeChat c' = (if ds = [] then JNull else activeChat c)
         \<and> \<not> isSending c')"
proof -
  have act: "truthy (activeChat c)" using assms(1) by (simp add: sendable_def)
  show ?thesis
    unfolding Let_def sendMessage_success_actions [OF assms(1-4)]
    using assms(5)
    by (simp add: run_append run_Cons run_Nil run_fetchChats_active [OF act assms(6)])
qed

theorem send_refetch_keeps_messages_witness:
  "sendable exampleController (input exampleController) bob
   \<and> fst (sendChatMessage exampleServer (trim (input exampleController)) (resolveUserId bob)
            (threadIdOf (activeChat exampleController))) = Inr exampleReply
   \<and> field exampleReply ''response'' = JStr ''hello''
   \<and> filled (user_id bob)
   \<and> fst (getChats exampleServer (resolveUserId bob)) = Inr (JArr [serverChat])
   \<and> chats (run exampleController (fst (sendMessage exampleController exampleServer))) = [serverChat]
   \<and> messages (run exampleController (fst (sendMessage exampleController exampleServer)))
       = [userMessage ''hi'', assistantMessage exampleReply]
   \<and> activeChat (run exampleController (fst (sendMessage exampleController exampleServer)))
       = activeChat exampleController"
proof -
  have s: "fst (sendChatMessage exampleServer (trim (input exampleController)) (resolveUserId bob)
            (threadIdOf (activeChat exampleController))) = Inr exampleReply"
    by (simp add: example_facts trim_examples example_calls)
  have r: "field exampleReply ''response'' = JStr ''hello''"
    by (simp add: exampleReply_def field_def)
  have g: "fst (getChats exampleServer (resolveUserId bob)) = Inr (JArr [serverChat])"
    by (simp add: example_facts example_calls)
  show ?thesis
    using send_refetch_keeps_messages [OF sendable_example s r _ example_facts(4) g]
    by (simp add: sendable_example r example_calls example_facts Let_def)
qed

text \<open>The claim as stated fails: the server holds three messages for the active chat,
  the page ends with the two it appended itself.\<close>

theorem reconciliation_counterexample:
  "fst (getChats exampleServer ''user_bob'') = Inr (JArr [serverChat])
   \<and> field serverChat ''id'' = field (activeChat exampleController) ''id''
   \<and> snd (sendMessage exampleController exampleServer) = Fulfilled
   \<and> messages (run exampleController (fst (sendMessage exampleController exampleServer)))
       = [userMessage ''hi'', assistantMessage exampleReply]
   \<and> messages (run exampleController (fst (sendMessage exampleController exampleServer)))
       \<noteq> chatMessages (field serverChat ''messages'')"
proof -
  have act: "truthy (activeChat exampleController)"
    by (simp add: exampleController_def localChat_def)
  have s: "fst (sendChatMessage exampleServer (trim (input exampleController)) (resolveUserId bob)
            (threadIdOf (activeChat exampleController))) = Inr exampleReply"
    by (simp add: example_facts trim_examples example_calls)
  have r: "field exampleReply ''response'' = JStr ''hello''"
    by (simp add: exampleReply_def field_def)
  have g: "fst (getChats exampleServer (resolveUserId bob)) = Inr (JArr [serverChat])"
    by (simp add: example_facts example_calls)
  have g': "fst (getChats exampleServer ''user_bob'') = Inr (JArr [serverChat])"
    by (simp add: example_calls)
  have m: "messages (run exampleController (fst (sendMessage exampleController exampleServer)))
       = [userMessage ''hi'', assistantMessage exampleReply]"
    using sendMessage_success_actions [OF sendable_example s r]
    by (simp add: run_append run_Cons run_Nil run_fetchChats_active [OF act g'] example_facts)
  have d: "chatMessages (field serverChat ''messages'')
             \<noteq> [userMessage ''hi'', assistantMessage exampleReply]"
    by (simp add: serverChat_def field_def chatMessages_def js_or_def)
  have i: "field serverChat ''id'' = field (activeChat exampleController) ''id''"
    by (simp add: serverChat_def exampleController_def localChat_def field_def)
  have f: "snd (sendMessage exampleController exampleServer) = Fulfilled"
    by (simp add: sendMessage_sendable [OF sendable_example])
  from m d i f show ?thesis by (simp add: example_calls)
qed

subsection \<open>One user message, at most one assistant message, flag cleared\<close>

text \<open>
  Claim C2, as amended. A send with a text that is non-empty after trimming, a user
  record whose \<open>username\<close> is non-empty, an active chat and no send in flight appends
  exactly one message of role \<open>user\<close> and at most one of role \<open>assistant\<close>, and the
  sending flag is off once the handler has settled, whatever the network answers; for
  the voice handler and for the typed one. The guard reads \<open>user?.username\<close>: a user
  record alone is not enough.
\<close>

theorem send_appends:
  assumes "sendable c text u"
  shows "(let acts = fst (sendMessageFromText c fetch text) in
           length (filter (hasRole ''user'') (appendedMessages acts)) = 1
         \<and> length (filter (hasRole ''assistant'') (appendedMessages acts)) \<le> 1
         \<and> \<not> isSending (run c acts))
       \<and> (let acts = fst (sendMessage (c\<lparr>input := text\<rparr>) fetch) in
           length (filter (hasRole ''user'') (appendedMessages acts)) = 1
         \<and> length (filter (hasRole ''assistant'') (appendedMessages acts)) \<le> 1
         \<and> \<not> isSending (run (c\<lparr>input := text\<rparr>) acts))"
proof -
  have s2: "sendable (c\<lparr>input := text\<rparr>) (input (c\<lparr>input := text\<rparr>)) u"
    using assms by (simp add: sendable_def)
  show ?thesis
    using role_count [OF appended_sendProtocol, of True c "fetch" u "text"]
      role_count [OF appended_sendProtocol, of False "c\<lparr>input := text\<rparr>" "fetch" u "trim text"]
    by (simp add: sendMessageFromText_sendable [OF assms] sendMessage_sendable [OF s2]
        Let_def run_append run_Cons isSending_sendProtocol)
qed

theorem send_appends_witness:
  "sendable exampleController ''hi'' bob
   \<and> length (filter (hasRole ''user'')
        (appendedMessages (fst (sendMessageFromText exampleController offline ''hi'')))) = 1
   \<and> length (filter (hasRole ''assistant'')
        (appendedMessages (fst (sendMessageFromText exampleController offline ''hi'')))) \<le> 1
   \<and> \<not> isSending (run exampleController (fst (sendMessageFromText exampleController offline ''hi'')))"
proof -
  have h: "sendable exampleController ''hi'' bob"
    using sendable_example by (simp add: exampleController_def)
  show ?thesis
    using send_appends [OF h, of offline] h by (simp add: Let_def)
qed

text \<open>The claim as stated fails for a user record without a name. Opening the page with
  such a record (it has an identifier and a photo) loads the chats and selects the first;
  with a text typed and no send in flight, both handlers return at the guard
  \<open>!user?.username\<close> and append nothing.\<close>

theorem nameless_user_counterexample:
  "namelessPage
     = initialController\<lparr>user := Some nameless, chats := [serverChat], activeChat := serverChat,
         messages := chatMessages (field serverChat ''messages'')\<rparr>
   \<and> trim ''hi'' \<noteq> []
   \<and> user namelessPage = Some nameless
   \<and> truthy (activeChat namelessPage)
   \<and> \<not> isSending namelessPage
   \<and> sendMessage (namelessPage\<lparr>input := ''hi''\<rparr>) exampleServer = ([], Fulfilled)
   \<and> sendMessageFromText namelessPage exampleServer ''hi'' = ([], Fulfilled)
   \<and> length (filter (hasRole ''user'')
        (appendedMessages (fst (sendMessage (namelessPage\<lparr>input := ''hi''\<rparr>) exampleServer)))) = 0
   \<and> length (filter (hasRole ''user'')
        (appendedMessages (fst (sendMessageFromText namelessPage exampleServer ''hi'')))) = 0"
proof -
  have m: "namelessPage
     = initialController\<lparr>user := Some nameless, chats := [serverChat], activeChat := serverChat,
         messages := chatMessages (field serverChat ''messages'')\<rparr>"
    by (simp add: namelessPage_def mountEffect_def hasNoPhotos_def nameless_def filled_def
        resolveUserId_def fetchChatsWithUserId_def example_calls initialController_def
        run_Cons run_Nil getp_def nullish_def serverChat_def)
  have t: "truthy serverChat" by (simp add: serverChat_def)
  have u: "\<not> filled (username nameless)" by (simp add: nameless_def filled_def)
  show ?thesis
    unfolding m using t u
    by (simp add: sendMessage_def sendMessageFromText_def trim_examples initialController_def)
qed

subsection \<open>Failures end in a rendered message\<close>

text \<open>
  Claim C4. When \<open>sendChatMessage\<close> rejects with message \<open>m\<close> during a typed send, the
  handler still fulfils. If \<open>m\<close> contains "upload at least one photo", the one
  assistant message appended is the guidance text and the only navigation is the one
  scheduled to \<open>/dashboard\<close> after 3000 ms; otherwise the one assistant message is
  "Error: " followed by \<open>m\<close> (by the fallback text when \<open>m\<close> is empty) and nothing
  navigates.
\<close>

theorem send_failure_rendered:
  assumes "sendable c (input c) u"
    and "fst (sendChatMessage fetch (trim (input c)) (resolveUserId u) (threadIdOf (activeChat c)))
           = Inl m"
  shows "(let (acts, result) = sendMessage c fetch in
           result = Fulfilled
         \<and> filter (hasRole ''assistant'') (appendedMessages acts) =
             [JObj [(''role'', JStr ''assistant''),
                    (''content'', JStr (if includes_str m photoNeedle then photoGuidance
                                        else ''Error: '' @ (if m \<noteq> [] then m else sendFallback)))]]
         \<and> filter isNavigation acts =
             (if includes_str m photoNeedle then [NavigateAfter 3000 ''/dashboard''] else []))"
proof -
  obtain reqs where r:
    "sendChatMessage fetch (trim (input c)) (resolveUserId u) (threadIdOf (activeChat c))
       = (Inl m, reqs)"
    using assms(2)
    by (cases "sendChatMessage fetch (trim (input c)) (resolveUserId u) (threadIdOf (activeChat c))")
       auto
  show ?thesis
    by (simp add: sendMessage_sendable [OF assms(1)] sendProtocol_def sendTry_threadId r
        appended_sendCatch navigation_sendCatch)
qed

theorem send_failure_rendered_witness:
  "sendable exampleController (input exampleController) bob
   \<and> fst (sendChatMessage photoServer (trim (input exampleController)) (resolveUserId bob)
            (threadIdOf (activeChat exampleController))) = Inl photoRefusal
   \<and> includes_str photoRefusal photoNeedle
   \<and> snd (sendMessage exampleController photoServer) = Fulfilled
   \<and> filter isNavigation (fst (sendMessage exampleController photoServer))
       = [NavigateAfter 3000 ''/dashboard'']
   \<and> fst (sendChatMessage offline (trim (input exampleController)) (resolveUserId bob)
            (threadIdOf (activeChat exampleController))) = Inl ''Failed to fetch''
   \<and> filter (hasRole ''assistant'') (appendedMessages (fst (sendMessage exampleController offline)))
       = [JObj [(''role'', JStr ''assistant''), (''content'', JStr ''Error: Failed to fetch'')]]
   \<and> filter isNavigation (fst (sendMessage exampleController offline)) = []"
proof -
  have ne: "photoRefusal \<noteq> []" by (simp add: photoRefusal_def)
  have p: "fst (sendChatMessage photoServer (trim (input exampleController)) (resolveUserId bob)
            (threadIdOf (activeChat exampleController))) = Inl photoRefusal"
    by (simp add: ne example_facts sendChatMessage_def trim_examples photoServer_def tryRequest_def
        catchRequest_def serverError_def errorData_def nullish_def field_def js_or_def Let_def)
  have o: "fst (sendChatMessage offline (trim (input exampleController)) (resolveUserId bob)
            (threadIdOf (activeChat exampleController))) = Inl ''Failed to fetch''"
    by (simp add: example_facts sendChatMessage_def trim_examples offline_def tryRequest_def
        catchRequest_def Let_def)
  have i: "includes_str photoRefusal photoNeedle" by code_simp
  have n: "\<not> includes_str ''Failed to fetch'' photoNeedle" by code_simp
  show ?thesis
    using send_failure_rendered [OF sendable_example p] send_failure_rendered [OF sendable_example o]
    by (simp add: sendable_example p o i n split_def Let_def del: includes_str.simps)
qed

subsection \<open>Ranked products come first\<close>

text \<open>
  Claim C5. When the request of a typed send succeeds with a non-empty reply string and
  the response carries both a \<open>ranked_products\<close> list and a \<open>styled_products\<close> list,
  the one assistant message appended is built from that response and its unified
  \<open>products\<close> field is the \<open>ranked_products\<close> list.
\<close>

theorem ranked_products_priority:
  assumes "sendable c (input c) u"
    and "fst (sendChatMessage fetch (trim (input c)) (resolveUserId u) (threadIdOf (activeChat c)))
           = Inr resp"
    and "field resp ''response'' = JStr reply" and "reply \<noteq> []"
    and "field resp ''ranked_products'' = JArr ranked"
    and "field resp ''styled_products'' = JArr styled"
  shows "filter (hasRole ''assistant'') (appendedMessages (fst (sendMessage c fetch)))
           = [assistantMessage resp]
       \<and> field (assistantMessage resp) ''products'' = JArr ranked"
proof -
  have 1: "filter (hasRole ''assistant'') (appendedMessages (fst (sendMessage c fetch)))
             = [assistantMessage resp]"
    by (simp add: sendMessage_success_actions [OF assms(1-4)])
  have 2: "field (assistantMessage resp) ''products'' = JArr ranked"
    using assms(5) by (simp add: assistantMessage_def field_def js_or_def)
  from 1 2 show ?thesis by simp
qed

theorem ranked_products_priority_witness:
  "sendable exampleController (input exampleController) bob
   \<and> fst (sendChatMessage exampleServer (trim (input exampleController)) (resolveUserId bob)
            (threadIdOf (activeChat exampleController))) = Inr exampleReply
   \<and> field exampleReply ''response'' = JStr ''hello''
   \<and> field exampleReply ''ranked_products'' = JArr [JObj [(''id'', JStr ''r1'')]]
   \<and> field exampleReply ''styled_products'' = JArr [JObj [(''id'', JStr ''s1'')]]
   \<and> filter (hasRole ''assistant'')
        (appendedMessages (fst (sendMessage exampleController exampleServer)))
       = [assistantMessage exampleReply]
   \<and> field (assistantMessage exampleReply) ''products'' = JArr [JObj [(''id'', JStr ''r1'')]]"
proof -
  have s: "fst (sendChatMessage exampleServer (trim (input exampleController)) (resolveUserId bob)
            (threadIdOf (activeChat exampleController))) = Inr exampleReply"
    by (simp add: example_facts trim_examples example_calls)
  have r: "field exampleReply ''response'' = JStr ''hello''"
    and k: "field exampleReply ''ranked_products'' = JArr [JObj [(''id'', JStr ''r1'')]]"
    and y: "field exampleReply ''styled_products'' = JArr [JObj [(''id'', JStr ''s1'')]]"
    by (simp_all add: exampleReply_def field_def)
  show ?thesis
    using ranked_products_priority [OF sendable_example s r _ k y]
    by (simp add: sendable_example s r k y)
qed

subsection \<open>A chat list of the wrong shape\<close>

text \<open>
  Claim C6. When \<open>getChats\<close> resolves to a value that is not an array,
  \<open>fetchChatsWithUserId\<close> sets the chat list to the empty list and changes nothing else
  of the state; and \<open>getChats\<close> rejects with "User ID is required", having issued no
  request, when its argument is empty after trimming.
\<close>

theorem chats_non_array:
  "(fst (getChats fetch uid) = Inr data \<and> \<not> isArray data \<longrightarrow>
      run c (fetchChatsWithUserId c fetch uid) = c\<lparr>chats := []\<rparr>)
   \<and> (trim uid = [] \<longrightarrow> getChats fetch uid = (Inl ''User ID is required'', []))"
proof (intro conjI impI)
  assume a: "fst (getChats fetch uid) = Inr data \<and> \<not> isArray data"
  then have "uid \<noteq> []" by (auto simp: getChats_def)
  moreover obtain reqs where "getChats fetch uid = (Inr data, reqs)"
    using a by (cases "getChats fetch uid") auto
  ultimately show "run c (fetchChatsWithUserId c fetch uid) = c\<lparr>chats := []\<rparr>"
    using a by (cases data) (simp_all add: fetchChatsWithUserId_def run_append run_Cons run_Nil)
next
  assume "trim uid = []"
  then show "getChats fetch uid = (Inl ''User ID is required'', [])"
    by (simp add: getChats_def)
qed

theorem chats_non_array_witness:
  "fst (getChats wrongShapeServer ''user_bob'') = Inr (JObj [(''chats'', JArr [])])
   \<and> \<not> isArray (JObj [(''chats'', JArr [])])
   \<and> run exampleController (fetchChatsWithUserId exampleController wrongShapeServer ''user_bob'')
       = exampleController\<lparr>chats := []\<rparr>
   \<and> trim ''   '' = []
   \<and> getChats wrongShapeServer ''   '' = (Inl ''User ID is required'', [])"
proof -
  have g: "fst (getChats wrongShapeServer ''user_bob'') = Inr (JObj [(''chats'', JArr [])])"
    by (simp add: getChats_def trim_examples wrongShapeServer_def tryRequest_def catchRequest_def
        Let_def)
  show ?thesis
    using chats_non_array [of wrongShapeServer "''user_bob''" "JObj [(''chats'', JArr [])]"
        exampleController]
      chats_non_array [of wrongShapeServer "''   ''"]
    by (simp add: g trim_examples)
qed

subsection \<open>Sends that do nothing\<close>

text \<open>
  Claim C7. While a send is in flight, or for a text that is empty after trimming, or
  with no user or no active chat, both handlers fulfil without performing any action:
  the state that results is the state before (message list, chat list, active chat and
  sending flag included) and no request is issued.
\<close>

theorem send_noop:
  assumes "isSending c \<or> trim text = [] \<or> user c = None \<or> activeChat c = JNull"
  shows "sendMessageFromText c fetch text = ([], Fulfilled)
       \<and> run c (fst (sendMessageFromText c fetch text)) = c
       \<and> filter isFetch (fst (sendMessageFromText c fetch text)) = []
       \<and> sendMessage (c\<lparr>input := text\<rparr>) fetch = ([], Fulfilled)
       \<and> run (c\<lparr>input := text\<rparr>) (fst (sendMessage (c\<lparr>input := text\<rparr>) fetch))
           = c\<lparr>input := text\<rparr>
       \<and> filter isFetch (fst (sendMessage (c\<lparr>input := text\<rparr>) fetch)) = []"
proof -
  from assms have 1: "sendMessageFromText c fetch text = ([], Fulfilled)"
    by (auto simp: sendMessageFromText_def split: option.splits)
  from assms have 2: "sendMessage (c\<lparr>input := text\<rparr>) fetch = ([], Fulfilled)"
    by (auto simp: sendMessage_def split: option.splits)
  show ?thesis by (simp add: 1 2 run_Nil)
qed

theorem send_noop_witness:
  "isSending (exampleController\<lparr>isSending := True\<rparr>)
   \<and> sendMessageFromText (exampleController\<lparr>isSending := True\<rparr>) exampleServer ''hi''
       = ([], Fulfilled)
   \<and> trim ''   '' = []
   \<and> sendMessage (exampleController\<lparr>input := ''   ''\<rparr>) exampleServer = ([], Fulfilled)
   \<and> activeChat (exampleController\<lparr>activeChat := JNull\<rparr>) = JNull
   \<and> sendMessageFromText (exampleController\<lparr>activeChat := JNull\<rparr>) exampleServer ''hi''
       = ([], Fulfilled)"
  using send_noop [of "exampleController\<lparr>isSending := True\<rparr>" "''hi''" exampleServer]
    send_noop [of exampleController "''   ''" exampleServer]
    send_noop [of "exampleController\<lparr>activeChat := JNull\<rparr>" "''hi''" exampleServer]
  by (simp add: trim_examples)

subsection \<open>Where the code departs from the stated behaviour\<close>

text \<open>
  Claim C3 does not hold of the code. \<open>sendChatMessage\<close> tests its \<open>userId\<close> with
  \<open>!userId\<close> only and \<open>createChat\<close> tests \<open>chatData.user_id\<close> the same way, where
  \<open>getChats\<close> and the other functions also trim: a user id of three spaces is empty
  after trimming, yet both functions build their request and hand it to \<open>fetch\<close>.
\<close>

theorem untrimmed_user_id_reaches_network:
  "trim ''   '' = []
   \<and> sendChatMessage fetch ''hi'' ''   '' JNull =
       (catchRequest ''Network error: Failed to send message''
          (tryRequest True ''Failed to send message: ''
             (fetch \<lparr>req_method = ''POST'', req_url = API_BASE_URL @ ''/chat'',
                     req_body = Some (JObj [(''message'', JStr ''hi''), (''user_id'', JStr ''   '')])\<rparr>)),
        [\<lparr>req_method = ''POST'', req_url = API_BASE_URL @ ''/chat'',
          req_body = Some (JObj [(''message'', JStr ''hi''), (''user_id'', JStr ''   '')])\<rparr>])
   \<and> snd (createChat fetch (JObj [(''user_id'', JStr ''   '')])) =
        [\<lparr>req_method = ''POST'', req_url = API_BASE_URL @ ''/api/createChat/'',
          req_body = Some (JObj [(''user_id'', JStr ''   '')])\<rparr>]
   \<and> getChats fetch ''   '' = (Inl ''User ID is required'', [])"
  by (simp add: trim_examples sendChatMessage_def createChat_def getChats_def field_def Let_def)

theorem untrimmed_user_id_reaches_network_witness:
  "snd (sendChatMessage exampleServer ''hi'' ''   '' JNull) =
     [\<lparr>req_method = ''POST'', req_url = API_BASE_URL @ ''/chat'',
       req_body = Some (JObj [(''message'', JStr ''hi''), (''user_id'', JStr ''   '')])\<rparr>]
   \<and> fst (sendChatMessage exampleServer ''hi'' ''   '' JNull) = Inr exampleReply
   \<and> snd (createChat exampleServer (JObj [(''user_id'', JStr ''   '')])) =
        [\<lparr>req_method = ''POST'', req_url = API_BASE_URL @ ''/api/createChat/'',
          req_body = Some (JObj [(''user_id'', JStr ''   '')])\<rparr>]"
  using untrimmed_user_id_reaches_network [of exampleServer]
  by (simp add: exampleServer_def tryRequest_def catchRequest_def)

text \<open>
  Claim C8 does not hold of the code. When the request gets no response, \<open>fetch\<close> rejects
  with a \<open>TypeError\<close> (here with the message "Failed to fetch"); that value is an
  instance of \<open>Error\<close>, so the \<open>catch\<close> block throws it again as it is, and the
  "Network error: ..." text, kept for a thrown value that is no \<open>Error\<close>, is not used.
\<close>

theorem network_failure_message:
  "fst (getChats offline ''user_bob'') = Inl ''Failed to fetch''
   \<and> fst (sendChatMessage offline ''hi'' ''user_bob'' JNull) = Inl ''Failed to fetch''
   \<and> \<not> startsWith ''Failed to fetch'' ''Network error''
   \<and> catchRequest ''Network error: Failed to connect to server'' (Inl OtherThrown)
       = Inl ''Network error: Failed to connect to server''"
  by (simp add: trim_examples getChats_def sendChatMessage_def offline_def tryRequest_def
      catchRequest_def startsWith_def Let_def)

theorem network_failure_message_witness:
  "fst (getChats offline ''user_bob'') \<noteq> Inl ''Network error: Failed to connect to server''"
  using network_failure_message by simp

text \<open>
  Claim C9 does not hold of the code as a whole. For a persisted user without photos the
  mount effect stores the user, navigates to \<open>/dashboard\<close> and stops before its own
  fetch. But it stores the user before it tests the photos, and the second effect,
  which runs once a render sees the stored user's name, has no photo test: in the
  state the mount effect leaves, it requests the chat list.
\<close>

theorem no_photo_backup_fetch:
  "hasNoPhotos bobNoPhotos
   \<and> mountEffect initialController fetch (Some bobNoPhotos)
       = [SetUser bobNoPhotos, Navigate ''/dashboard'']
   \<and> filter isFetch
        (backupEffect (run initialController (mountEffect initialController fetch (Some bobNoPhotos)))
           fetch)
       = [Fetch \<lparr>req_method = ''GET'', req_url = API_BASE_URL @ ''/api/chats/user_bob'',
                 req_body = None\<rparr>]"
proof -
  have m: "mountEffect initialController fetch (Some bobNoPhotos)
             = [SetUser bobNoPhotos, Navigate ''/dashboard'']"
    by (simp add: mountEffect_def hasNoPhotos_def bobNoPhotos_def)
  have f: "filter isFetch (fetchChatsWithUserId c fetch ''user_bob'')
       = [Fetch \<lparr>req_method = ''GET'', req_url = API_BASE_URL @ ''/api/chats/user_bob'',
                 req_body = None\<rparr>]" for c
    by (auto simp: fetchChatsWithUserId_def getChats_def trim_examples Let_def
        split: sum.splits jsval.splits list.splits)
  have b: "filter isFetch
        (backupEffect (run initialController [SetUser bobNoPhotos, Navigate ''/dashboard'']) fetch)
       = [Fetch \<lparr>req_method = ''GET'', req_url = API_BASE_URL @ ''/api/chats/user_bob'',
                 req_body = None\<rparr>]"
    by (simp add: backupEffect_def fetchChats_def run_Cons run_Nil initialController_def
        bobNoPhotos_def filled_def resolveUserId_def f)
  have h: "hasNoPhotos bobNoPhotos"
    by (simp add: hasNoPhotos_def bobNoPhotos_def)
  from m b h show ?thesis by simp
qed

theorem no_photo_backup_fetch_witness:
  "mountEffect initialController offline (Some bobNoPhotos)
       = [SetUser bobNoPhotos, Navigate ''/dashboard'']
   \<and> filter isFetch
        (backupEffect (run initialController (mountEffect initialController offline (Some bobNoPhotos)))
           offline)
       = [Fetch \<lparr>req_method = ''GET'', req_url = API_BASE_URL @ ''/api/chats/user_bob'',
                 req_body = None\<rparr>]"
  using no_photo_backup_fetch [of offline] by blast

section \<open>Properties of the S3 key helpers\<close>

subsection \<open>Auxiliary facts\<close>

lemma code_less: "code c < 256"
  by (simp add: code_def)

lemma char_of_code [simp]: "char_of (code c) = c"
  by (simp add: code_def)

lemma code_char_of: "n < 256 \<Longrightarrow> code (char_of n) = n"
  by (simp add: code_def)

lemma hexVal_hexDigit: "n < 16 \<Longrightarrow> hexVal (hexDigit n) = Some n"
  by (auto simp: hexVal_def hexDigit_def isDigit_def code_char_of)

lemma hexDigit_unreserved: "n < 16 \<Longrightarrow> uriUnreserved (hexDigit n)"
  by (auto simp: uriUnreserved_def hexDigit_def isDigit_def isAlpha_def code_char_of)

lemma hexDigit_not_percent: "n < 16 \<Longrightarrow> hexDigit n \<noteq> CHR ''%''"
  by (auto simp: hexDigit_def dest!: arg_cong [where f = code] simp: code_char_of) (simp_all add: code_def)

lemma percentEncode_append [simp]:
  "percentEncode S (xs @ ys) = percentEncode S xs @ percentEncode S ys"
  by (simp add: percentEncode_def)

lemma percentEncode_Cons:
  "percentEncode S (c # cs) = (if S c then percentByte c else [c]) @ percentEncode S cs"
  by (simp add: percentEncode_def)

lemma percentEncode_Nil [simp]: "percentEncode S [] = []"
  by (simp add: percentEncode_def)

lemma percentByte_encChar: "x \<in> set (percentByte c) \<Longrightarrow> encChar x"
proof -
  have "code c div 16 < 16" "code c mod 16 < 16"
    using code_less [of c] by auto
  then show "x \<in> set (percentByte c) \<Longrightarrow> encChar x"
    by (auto simp: percentByte_def encChar_def hexDigit_unreserved)
qed

lemma encodeURIComponent_chars: "x \<in> set (encodeURIComponent s) \<Longrightarrow> encChar x"
  by (induction s)
     (auto simp: encodeURIComponent_def percentEncode_Cons encChar_def dest: percentByte_encChar
       split: if_splits)

lemma encChar_code: "encChar c \<Longrightarrow> 0x20 < code c \<and> code c < 0x7F"
  by (auto simp: encChar_def uriUnreserved_def isAlpha_def isDigit_def code_def)

lemma encChar_not:
  assumes "encChar c"
  shows "c \<noteq> CHR ''#''" "c \<noteq> CHR ''?''" "c \<noteq> CHR ''&''" "c \<noteq> CHR ''=''" "c \<noteq> CHR ''+''"
    "c \<noteq> CHR 0x09" "c \<noteq> CHR 0x0A" "c \<noteq> CHR 0x0D"
  using assms by (auto simp: encChar_def uriUnreserved_def isAlpha_def isDigit_def code_def)

lemma percentDecode_percentByte:
  "percentDecode (percentByte c @ rest) = c # percentDecode rest"
proof -
  have d: "code c div 16 < 16" and m: "code c mod 16 < 16"
    using code_less [of c] by auto
  have "16 * (code c div 16) + code c mod 16 = code c" by simp
  then show ?thesis
    by (simp add: percentByte_def hexVal_hexDigit [OF d] hexVal_hexDigit [OF m])
qed

lemma percentDecode_plain: "c \<noteq> CHR ''%'' \<Longrightarrow> percentDecode (c # rest) = c # percentDecode rest"
  by simp

lemma char_eq_code: "(c = d) = (code c = code d)"
  by (simp add: code_def)

lemma code_hexDigit: "n < 16 \<Longrightarrow> code (hexDigit n) = (if n < 10 then 48 + n else 55 + n)"
  by (simp add: hexDigit_def code_char_of)

lemma uriUnreserved_code:
  "uriUnreserved c =
     ((48 \<le> code c \<and> code c \<le> 57) \<or> (65 \<le> code c \<and> code c \<le> 90) \<or> (97 \<le> code c \<and> code c \<le> 122)
      \<or> code c \<in> {45, 95, 46, 33, 126, 42, 40, 41, 39})"
  unfolding uriUnreserved_def isAlpha_def isDigit_def
  by (simp add: char_eq_code) (auto simp: code_def)

lemma specialQuerySet_code:
  "specialQuerySet c = (code c \<le> 0x1F \<or> 0x7E < code c \<or> code c \<in> {0x20, 0x22, 0x23, 0x3C, 0x3E, 0x27})"
  unfolding specialQuerySet_def querySet_def c0ControlSet_def
  by (simp add: char_eq_code) (auto simp: code_def)

lemma specialQuerySet_unreserved: "uriUnreserved c \<Longrightarrow> specialQuerySet c = (c = CHR 0x27)"
  unfolding uriUnreserved_code specialQuerySet_code char_eq_code [of c]
  by (auto simp: code_def)

lemma specialQuerySet_hexDigit: "n < 16 \<Longrightarrow> \<not> specialQuerySet (hexDigit n)"
  by (simp add: specialQuerySet_code code_hexDigit)

lemma specialQuerySet_percentByte: "percentEncode specialQuerySet (percentByte c) = percentByte c"
proof -
  have d: "code c div 16 < 16" and m: "code c mod 16 < 16"
    using code_less [of c] by auto
  have p: "\<not> specialQuerySet CHR ''%''"
    by (simp add: specialQuerySet_code) (simp add: code_def)
  show ?thesis
    by (simp add: percentByte_def percentEncode_Cons specialQuerySet_hexDigit [OF d]
        specialQuerySet_hexDigit [OF m] p)
qed

lemma uriUnreserved_not_percent: "uriUnreserved c \<Longrightarrow> c \<noteq> CHR ''%''"
  unfolding uriUnreserved_code char_eq_code [of c]
  by (auto simp: code_def)

lemma query_roundtrip:
  "percentDecode (percentEncode specialQuerySet (encodeURIComponent k) @ rest)
     = k @ percentDecode rest"
proof (induction k)
  case Nil
  then show ?case by (simp add: encodeURIComponent_def)
next
  case (Cons c k)
  have e: "encodeURIComponent (c # k) = (if uriUnreserved c then [c] else percentByte c) @ encodeURIComponent k"
    by (simp add: encodeURIComponent_def percentEncode_Cons)
  show ?case
  proof (cases "uriUnreserved c")
    case True
    show ?thesis
    proof (cases "c = CHR 0x27")
      case q: True
      have "specialQuerySet c"
        using True q by (simp add: specialQuerySet_unreserved)
      then show ?thesis
        using True Cons.IH
        by (simp add: e percentEncode_Cons percentDecode_percentByte del: percentDecode.simps)
    next
      case q: False
      have "\<not> specialQuerySet c"
        using True q by (simp add: specialQuerySet_unreserved)
      then show ?thesis
        using True Cons.IH uriUnreserved_not_percent [OF True]
        by (simp add: e percentEncode_Cons percentDecode_plain del: percentDecode.simps)
    qed
  next
    case False
    then show ?thesis
      using Cons.IH
      by (simp add: e specialQuerySet_percentByte percentDecode_percentByte del: percentDecode.simps)
  qed
qed

lemma utf8Decode_ascii:
  "\<forall>c \<in> set k. code c < 0x80 \<Longrightarrow> utf8Decode 0 0x80 0xBF [] k = k"
  by (induction k) simp_all

lemma uriTokens_plain: "CHR ''%'' \<notin> set k \<Longrightarrow> uriTokens k = Some (map Lit k)"
  by (induction k) auto

lemma decodeTokens_Lit: "decodeTokens (map Lit k) = Some k"
  by (induction k) auto

lemma decodeURIComponent_plain: "CHR ''%'' \<notin> set k \<Longrightarrow> decodeURIComponent k = Some k"
  by (simp add: decodeURIComponent_def uriTokens_plain decodeTokens_Lit)

lemma splitOn_first:
  "\<forall>x \<in> set xs. \<not> sep x \<Longrightarrow> sep c \<Longrightarrow> splitOn sep (xs @ c # ys) = xs # splitOn sep ys"
  by (induction xs) auto

lemma splitOn_nonempty [simp]: "splitOn sep s \<noteq> []"
  by (induction s) (auto split: list.splits)

lemma splitOn_chars: "\<Union> (set ` set (splitOn sep s)) \<subseteq> set s"
proof (induction s)
  case Nil
  then show ?case by simp
next
  case (Cons a s)
  obtain x xs where x: "splitOn sep s = x # xs"
    by (cases "splitOn sep s") simp_all
  with Cons have "set x \<subseteq> set s" "\<Union> (set ` set xs) \<subseteq> set s"
    by auto
  then show ?case
    using x by (cases "sep a") auto
qed

lemma joinWith_chars: "set (joinWith sep ps) \<subseteq> set sep \<union> \<Union> (set ` set ps)"
  by (induction sep ps rule: joinWith.induct) auto

lemma keyAfterBucket_chars:
  assumes "keyAfterBucket path = Some k"
  shows "set k \<subseteq> insert CHR ''/'' (set path)"
proof -
  obtain b following where d: "dropWhile (\<lambda>part. part \<noteq> bucketName) (splitOn (\<lambda>c. c = CHR ''/'') path) = b # following"
    and k: "k = joinWith ''/'' following"
    using assms by (auto simp: keyAfterBucket_def split: list.splits if_splits)
  have "set following \<subseteq> set (splitOn (\<lambda>c. c = CHR ''/'') path)"
    using set_dropWhileD [of _ "\<lambda>part. part \<noteq> bucketName" "splitOn (\<lambda>c. c = CHR ''/'') path"] d
    by auto
  then have "\<Union> (set ` set following) \<subseteq> set path"
    using splitOn_chars [of "\<lambda>c. c = CHR ''/''" path] by blast
  moreover have "set (joinWith ''/'' following) \<subseteq> insert CHR ''/'' (\<Union> (set ` set following))"
    using joinWith_chars [of "''/''" following] by simp
  ultimately show ?thesis
    unfolding k by blast
qed

lemma API_BASE_URL_host: "API_BASE_URL = ''https://'' @ apiHost"
  by (simp add: API_BASE_URL_def apiHost_def)

lemma percentEncode_ascii:
  assumes "\<And>c. 0x7E < code c \<Longrightarrow> S c"
  shows "\<forall>x \<in> set (percentEncode S s). code x < 0x80"
proof (induction s)
  case Nil
  then show ?case by simp
next
  case (Cons c s)
  have "code x < 0x80" if "x \<in> set (percentByte c)" for x
    using encChar_code [OF percentByte_encChar [OF that]] by simp
  moreover have "code c < 0x80" if "\<not> S c"
    using that assms [of c] by (cases "0x7E < code c") auto
  ultimately show ?case
    using Cons by (auto simp: percentEncode_Cons)
qed

lemma pathSet_high: "0x7E < code c \<Longrightarrow> pathSet c"
  by (simp add: pathSet_def querySet_def c0ControlSet_def)

lemma c0ControlSet_high: "0x7E < code c \<Longrightarrow> c0ControlSet c"
  by (simp add: c0ControlSet_def)

lemma shorten_subset: "set (shorten scheme path) \<subseteq> set path"
  by (auto simp: shorten_def dest: in_set_butlastD)

lemma isDriveLetter_hd: "isDriveLetter b \<Longrightarrow> isAlpha (hd b)"
  by (auto simp: isDriveLetter_def split: list.splits)

lemma isAlpha_ascii: "isAlpha c \<Longrightarrow> code c < 0x80"
  by (auto simp: isAlpha_def)

lemma pathSegments_ascii:
  assumes "\<forall>seg \<in> set path. \<forall>c \<in> set seg. code c < 0x80"
  shows "\<forall>seg \<in> set (pathSegments scheme path segs). \<forall>c \<in> set seg. code c < 0x80"
  using assms
proof (induction segs arbitrary: path)
  case Nil
  then show ?case by simp
next
  case (Cons seg segs)
  let ?b = "percentEncode pathSet seg"
  have b: "\<forall>c \<in> set ?b. code c < 0x80"
    using percentEncode_ascii [of pathSet seg] pathSet_high by blast
  have sh: "\<forall>s \<in> set (shorten scheme path). \<forall>c \<in> set s. code c < 0x80"
    using Cons.prems shorten_subset [of scheme path] by blast
  have d: "\<forall>c \<in> set [hd ?b, CHR '':'']. code c < 0x80" if "isDriveLetter ?b"
    using isAlpha_ascii [OF isDriveLetter_hd [OF that]] by (simp add: code_def)
  show ?case
    unfolding pathSegments.simps Let_def
    by (rule Cons.IH) (use Cons.prems b sh d in auto)
qed

lemma serializePath_ascii:
  "\<forall>seg \<in> set path. \<forall>c \<in> set seg. code c < 0x80 \<Longrightarrow>
   \<forall>c \<in> set (serializePath path). code c < 0x80"
  by (auto simp: serializePath_def code_def)

lemma pathState_ascii: "\<forall>c \<in> set (url_pathname (pathState scheme inp)). code c < 0x80"
  unfolding pathState_def Let_def
  using serializePath_ascii [OF pathSegments_ascii [of "[]"]] by simp

lemma pathStartState_ascii: "\<forall>c \<in> set (url_pathname (pathStartState scheme inp)). code c < 0x80"
  using pathState_ascii by (auto simp: pathStartState_def split: list.splits)

lemma opaquePathState_ascii: "\<forall>c \<in> set (url_pathname (opaquePathState scheme inp)). code c < 0x80"
  using percentEncode_ascii [of c0ControlSet] c0ControlSet_high
  by (simp add: opaquePathState_def)

lemma authorityState_ascii:
  "authorityState P scheme inp = Some u \<Longrightarrow> \<forall>c \<in> set (url_pathname u). code c < 0x80"
  using pathStartState_ascii by (auto simp: authorityState_def Let_def split: if_splits)

lemma fileState_ascii:
  "fileState P inp = Some u \<Longrightarrow> \<forall>c \<in> set (url_pathname u). code c < 0x80"
  using pathStartState_ascii pathState_ascii
  by (auto simp: fileState_def fileHostState_def Let_def split: if_splits list.splits)

lemma parseURL_ascii:
  assumes "parseURL P s = Some u"
  shows "\<forall>c \<in> set (url_pathname u). code c < 0x80"
proof -
  obtain scheme rest where sp: "splitScheme (stripInput s) = Some (scheme, rest)"
    using assms by (auto simp: parseURL_def split: option.splits)
  consider (fileScheme) "scheme = ''file''" "fileState P rest = Some u"
    | (specialScheme) "authorityState P scheme (dropWhile isSlash rest) = Some u"
    | (withAuthority) ds where "authorityState P scheme ds = Some u"
    | (pathOnly) inp where "u = pathState scheme inp"
    | (opaquePath) inp where "u = opaquePathState scheme inp"
    using assms sp by (auto simp: parseURL_def split: if_splits list.splits)
  then show ?thesis
  proof cases
    case fileScheme then show ?thesis using fileState_ascii by blast
  next
    case specialScheme then show ?thesis using authorityState_ascii by blast
  next
    case withAuthority then show ?thesis using authorityState_ascii by blast
  next
    case pathOnly then show ?thesis using pathState_ascii by blast
  next
    case opaquePath then show ?thesis using opaquePathState_ascii by blast
  qed
qed

lemma parseURL_Nil: "parseURL P [] = None"
  by (simp add: parseURL_def stripInput_def splitScheme_def)

lemma rev_dropWhile_last:
  "xs \<noteq> [] \<Longrightarrow> \<not> P (last xs) \<Longrightarrow> rev (dropWhile P (rev xs)) = xs"
  by (cases xs rule: rev_cases) simp_all

lemma filter_id: "\<forall>x \<in> set xs. P x \<Longrightarrow> filter P xs = xs"
  by (induction xs) auto

lemma takeWhile_all: "\<forall>x \<in> set xs. P x \<Longrightarrow> takeWhile P xs = xs"
  by (induction xs) auto

lemma takeWhile_stop:
  "\<forall>x \<in> set xs. P x \<Longrightarrow> \<not> P c \<Longrightarrow> takeWhile P (xs @ c # ys) = xs"
  by (induction xs) auto

lemma dropWhile_stop:
  "\<forall>x \<in> set xs. P x \<Longrightarrow> \<not> P c \<Longrightarrow> dropWhile P (xs @ c # ys) = c # ys"
  by (induction xs) auto

lemma literal_chars:
  "\<forall>c \<in> set ''s3_key=''. c \<noteq> CHR ''#'' \<and> c \<noteq> CHR 0x09 \<and> c \<noteq> CHR 0x0A \<and> c \<noteq> CHR 0x0D"
  "\<forall>c \<in> set ''&image_url=''. c \<noteq> CHR ''#'' \<and> c \<noteq> CHR 0x09 \<and> c \<noteq> CHR 0x0A \<and> c \<noteq> CHR 0x0D"
  by simp_all

lemma encChar_plain:
  "encChar c \<Longrightarrow> c \<noteq> CHR ''#'' \<and> c \<noteq> CHR 0x09 \<and> c \<noteq> CHR 0x0A \<and> c \<noteq> CHR 0x0D"
  using encChar_not by blast

lemma queryTail_nonempty: "isQueryTail q a b \<Longrightarrow> q \<noteq> []"
  by (simp add: isQueryTail_def)

lemma queryTail_last: "isQueryTail q a b \<Longrightarrow> 0x20 < code (last q)"
proof -
  assume t: "isQueryTail q a b"
  then have "last q = last b" "last b \<in> set b"
    by (simp_all add: isQueryTail_def)
  with t have "encChar (last q)" by (simp add: isQueryTail_def)
  then show ?thesis using encChar_code by blast
qed

lemma queryTail_plain:
  assumes "isQueryTail q a b"
  shows "\<forall>c \<in> set q. c \<noteq> CHR ''#'' \<and> c \<noteq> CHR 0x09 \<and> c \<noteq> CHR 0x0A \<and> c \<noteq> CHR 0x0D"
proof
  fix c assume "c \<in> set q"
  moreover from assms have "q = ''s3_key='' @ a @ ''&image_url='' @ b"
    unfolding isQueryTail_def by blast
  then have "set q = set ''s3_key='' \<union> (set a \<union> (set ''&image_url='' \<union> set b))"
    by (simp only: set_append)
  ultimately consider "c \<in> set ''s3_key=''" | "c \<in> set a" | "c \<in> set ''&image_url=''" | "c \<in> set b"
    by blast
  then show "c \<noteq> CHR ''#'' \<and> c \<noteq> CHR 0x09 \<and> c \<noteq> CHR 0x0A \<and> c \<noteq> CHR 0x0D"
  proof cases
    case 1 then show ?thesis using literal_chars(1) by blast
  next
    case 2 then show ?thesis using assms encChar_plain unfolding isQueryTail_def by blast
  next
    case 3 then show ?thesis using literal_chars(2) by blast
  next
    case 4 then show ?thesis using assms encChar_plain unfolding isQueryTail_def by blast
  qed
qed

lemma stripInput_proxy:
  assumes "isQueryTail q a b"
  shows "stripInput (''https://'' @ apiHost @ ''/api/image-proxy/'' @ name @ ''?'' @ q)
       = ''https://'' @ apiHost @ ''/api/image-proxy/''
         @ filter (\<lambda>c. c \<noteq> CHR 0x09 \<and> c \<noteq> CHR 0x0A \<and> c \<noteq> CHR 0x0D) name @ ''?'' @ q"
proof -
  let ?x = "''https://'' @ apiHost @ ''/api/image-proxy/'' @ name @ ''?'' @ q"
  let ?keep = "\<lambda>c. c \<noteq> CHR 0x09 \<and> c \<noteq> CHR 0x0A \<and> c \<noteq> CHR 0x0D"
  note ne = queryTail_nonempty [OF assms]
  have l: "last ?x = last q" using ne by simp
  have 1: "dropWhile (\<lambda>c. code c \<le> 0x20) ?x = ?x"
    by (simp add: code_def)
  have 2: "rev (dropWhile (\<lambda>c. code c \<le> 0x20) (rev ?x)) = ?x"
  proof (rule rev_dropWhile_last)
    show "?x \<noteq> []" by simp
    show "\<not> code (last ?x) \<le> 0x20"
      unfolding l using queryTail_last [OF assms] by simp
  qed
  have 3: "filter ?keep q = q"
    by (rule filter_id) (use queryTail_plain [OF assms] in blast)
  have 4: "filter ?keep apiHost = apiHost"
    by (simp add: apiHost_def)
  have "filter ?keep ?x = ''https://'' @ apiHost @ ''/api/image-proxy/'' @ filter ?keep name @ ''?'' @ q"
    by (simp add: 3 4)
  then show ?thesis
    unfolding stripInput_def 1 2 .
qed

lemma splitScheme_https:
  "splitScheme (''https://'' @ rest) = Some (''https'', ''//'' @ rest)"
  by (simp add: splitScheme_def schemeChar_def isAlpha_def isDigit_def toLower_def code_def)

lemma apiHost_inside:
  "\<forall>c \<in> set apiHost. c \<noteq> CHR ''/'' \<and> \<not> isPathEnd c \<and> c \<noteq> CHR 0x5C"
  by (simp add: apiHost_def isPathEnd_def)

lemma isSpecial_https: "isSpecial ''https''"
  by (simp add: isSpecial_def)

lemma authorityState_special:
  assumes "isSpecial scheme"
  shows "authorityState P scheme inp =
     (if P scheme (takeWhile (\<lambda>c. c \<noteq> CHR ''/'' \<and> \<not> isPathEnd c \<and> c \<noteq> CHR 0x5C) inp)
      then Some (pathStartState scheme
                   (dropWhile (\<lambda>c. c \<noteq> CHR ''/'' \<and> \<not> isPathEnd c \<and> c \<noteq> CHR 0x5C) inp))
      else None)"
  using assms by (simp add: authorityState_def Let_def)

lemma pathStartState_slash:
  "isSpecial scheme \<Longrightarrow> pathStartState scheme (CHR ''/'' # rest) = pathState scheme rest"
  by (simp add: pathStartState_def isSlash_def)

lemma apiHost_take:
  "takeWhile (\<lambda>c. c \<noteq> CHR ''/'' \<and> \<not> isPathEnd c \<and> c \<noteq> CHR 0x5C) (apiHost @ CHR ''/'' # rest) = apiHost"
proof (rule takeWhile_stop)
  show "\<forall>x\<in>set apiHost. x \<noteq> CHR ''/'' \<and> \<not> isPathEnd x \<and> x \<noteq> CHR 0x5C"
    by (rule apiHost_inside)
  show "\<not> (CHR ''/'' \<noteq> CHR ''/'' \<and> \<not> isPathEnd CHR ''/'' \<and> CHR ''/'' \<noteq> CHR 0x5C)"
    by blast
qed

lemma apiHost_drop:
  "dropWhile (\<lambda>c. c \<noteq> CHR ''/'' \<and> \<not> isPathEnd c \<and> c \<noteq> CHR 0x5C) (apiHost @ CHR ''/'' # rest)
     = CHR ''/'' # rest"
proof (rule dropWhile_stop)
  show "\<forall>x\<in>set apiHost. x \<noteq> CHR ''/'' \<and> \<not> isPathEnd x \<and> x \<noteq> CHR 0x5C"
    by (rule apiHost_inside)
  show "\<not> (CHR ''/'' \<noteq> CHR ''/'' \<and> \<not> isPathEnd CHR ''/'' \<and> CHR ''/'' \<noteq> CHR 0x5C)"
    by blast
qed

lemma authorityState_api:
  assumes "P ''https'' apiHost"
  shows "authorityState P ''https'' (apiHost @ CHR ''/'' # rest) = Some (pathState ''https'' rest)"
proof -
  have "authorityState P ''https'' (apiHost @ CHR ''/'' # rest)
          = (if P ''https'' apiHost then Some (pathStartState ''https'' (CHR ''/'' # rest)) else None)"
    by (simp only: authorityState_special [OF isSpecial_https] apiHost_take apiHost_drop)
  also have "\<dots> = Some (pathStartState ''https'' (CHR ''/'' # rest))"
    using assms by (simp only: if_True)
  also have "\<dots> = Some (pathState ''https'' rest)"
    by (simp only: pathStartState_slash [OF isSpecial_https])
  finally show ?thesis .
qed

lemma query_pathState:
  assumes "\<forall>c \<in> set pre. \<not> isPathEnd c" and "\<forall>c \<in> set q. c \<noteq> CHR ''#''"
  shows "url_query (pathState ''https'' (pre @ CHR ''?'' # q)) = Some (percentEncode specialQuerySet q)"
proof -
  have e: "\<not> \<not> isPathEnd CHR ''?''" by (simp add: isPathEnd_def)
  have d: "dropWhile (\<lambda>c. \<not> isPathEnd c) (pre @ CHR ''?'' # q) = CHR ''?'' # q"
    using assms(1) e by (rule dropWhile_stop)
  have t: "takeWhile (\<lambda>c. c \<noteq> CHR ''#'') q = q"
    using assms(2) by (rule takeWhile_all)
  have s: "isSpecial ''https''" by (simp add: isSpecial_def)
  show ?thesis
    unfolding pathState_def Let_def d by (simp add: queryOf_def t s)
qed

lemma dropSlashes_api: "dropWhile isSlash (''//'' @ (apiHost @ rest)) = apiHost @ rest"
  by (simp add: isSlash_def apiHost_def)

lemma parse_https:
  assumes "splitScheme (stripInput s) = Some (''https'', ''//'' @ (apiHost @ CHR ''/'' # rest))"
    and "P ''https'' apiHost"
  shows "parseURL P s = Some (pathState ''https'' rest)"
proof -
  have f: "''https'' \<noteq> ''file''" by simp
  have "parseURL P s = authorityState P ''https'' (dropWhile isSlash (''//'' @ (apiHost @ CHR ''/'' # rest)))"
    unfolding parseURL_def assms(1) using f isSpecial_https by simp
  also have "\<dots> = authorityState P ''https'' (apiHost @ CHR ''/'' # rest)"
    by (simp only: dropSlashes_api)
  also have "\<dots> = Some (pathState ''https'' rest)"
    using assms(2) by (rule authorityState_api)
  finally show ?thesis .
qed

lemma parse_proxy:
  assumes "P ''https'' apiHost" and "\<forall>c \<in> set name. \<not> isPathEnd c" and "isQueryTail q a b"
  shows "\<exists>u. parseURL P (API_BASE_URL @ ''/api/image-proxy/'' @ name @ ''?'' @ q) = Some u
           \<and> url_query u = Some (percentEncode specialQuerySet q)"
proof -
  let ?name = "filter (\<lambda>c. c \<noteq> CHR 0x09 \<and> c \<noteq> CHR 0x0A \<and> c \<noteq> CHR 0x0D) name"
  let ?pre = "''api/image-proxy/'' @ ?name"
  have x: "API_BASE_URL @ ''/api/image-proxy/'' @ name @ ''?'' @ q
         = ''https://'' @ apiHost @ ''/api/image-proxy/'' @ name @ ''?'' @ q"
    by (simp add: API_BASE_URL_host)
  have y: "''https://'' @ apiHost @ ''/api/image-proxy/'' @ ?name @ ''?'' @ q
         = ''https://'' @ (apiHost @ CHR ''/'' # (?pre @ CHR ''?'' # q))"
    by simp
  have s: "splitScheme (stripInput (API_BASE_URL @ ''/api/image-proxy/'' @ name @ ''?'' @ q))
       = Some (''https'', ''//'' @ (apiHost @ CHR ''/'' # (?pre @ CHR ''?'' # q)))"
    unfolding x stripInput_proxy [OF assms(3)] y by (rule splitScheme_https)
  have p: "parseURL P (API_BASE_URL @ ''/api/image-proxy/'' @ name @ ''?'' @ q)
       = Some (pathState ''https'' (?pre @ CHR ''?'' # q))"
    using s assms(1) by (rule parse_https)
  have n: "\<forall>c \<in> set ?pre. \<not> isPathEnd c"
    using assms(2) by (auto simp: isPathEnd_def)
  have h: "\<forall>c \<in> set q. c \<noteq> CHR ''#''"
    using queryTail_plain [OF assms(3)] by blast
  have "url_query (pathState ''https'' (?pre @ CHR ''?'' # q)) = Some (percentEncode specialQuerySet q)"
    using n h by (rule query_pathState)
  with p show ?thesis by blast
qed

lemma specialQuerySet_literal_chars:
  "\<forall>c \<in> set ''s3_key=&image_url''. \<not> specialQuerySet c"
  by (simp add: specialQuerySet_code code_def)

lemma percentEncode_clean: "\<forall>c \<in> set s. \<not> S c \<Longrightarrow> percentEncode S s = s"
  by (induction s) (simp_all add: percentEncode_Cons)

lemma specialQuerySet_literals:
  "percentEncode specialQuerySet ''s3_key='' = ''s3_key=''"
  "percentEncode specialQuerySet ''&image_url='' = ''&image_url=''"
  using specialQuerySet_literal_chars by (simp_all add: percentEncode_clean)

lemma percentEncode_encChar:
  "\<forall>c \<in> set s. encChar c \<Longrightarrow> \<forall>c \<in> set (percentEncode S s). encChar c"
  by (induction s) (auto simp: percentEncode_Cons dest: percentByte_encChar)

lemma map_plus_id:
  "\<forall>c \<in> set s. c \<noteq> CHR ''+'' \<Longrightarrow> map (\<lambda>c. if c = CHR ''+'' then CHR '' '' else c) s = s"
  by (induction s) simp_all

lemma percentDecode_Nil: "percentDecode [] = []"
  by simp

lemma formDecode_escaped:
  assumes "\<forall>c \<in> set k. code c < 0x80"
  shows "formDecode (percentEncode specialQuerySet (encodeURIComponent k)) = k"
proof -
  have e: "\<forall>c \<in> set (percentEncode specialQuerySet (encodeURIComponent k)). encChar c"
    using percentEncode_encChar encodeURIComponent_chars by blast
  have "\<forall>c \<in> set (percentEncode specialQuerySet (encodeURIComponent k)). c \<noteq> CHR ''+''"
    using e encChar_not(5) by blast
  then have m: "map (\<lambda>c. if c = CHR ''+'' then CHR '' '' else c)
                    (percentEncode specialQuerySet (encodeURIComponent k))
                  = percentEncode specialQuerySet (encodeURIComponent k)"
    by (rule map_plus_id)
  have "percentDecode (percentEncode specialQuerySet (encodeURIComponent k) @ []) = k @ percentDecode []"
    by (rule query_roundtrip)
  then have d: "percentDecode (percentEncode specialQuerySet (encodeURIComponent k)) = k"
    by (simp only: append_Nil2 percentDecode_Nil)
  have "utf8Decode 0 0x80 0xBF [] k = k"
    using assms by (rule utf8Decode_ascii)
  then show ?thesis
    by (simp only: formDecode_def m d utf8DecodeWithoutBOM_def)
qed

lemma formDecode_name: "formDecode ''s3_key'' = ''s3_key''"
proof -
  have a: "\<forall>c \<in> set ''s3_key''. code c < 0x80" by (simp add: code_def)
  have "percentDecode (map (\<lambda>c. if c = CHR ''+'' then CHR '' '' else c) ''s3_key'') = ''s3_key''"
    by simp
  then show ?thesis
    unfolding formDecode_def utf8DecodeWithoutBOM_def using utf8Decode_ascii [OF a] by simp
qed

lemma formPair_key:
  "formPair (''s3_key='' @ a) = (''s3_key'', formDecode a)"
proof -
  have t: "takeWhile (\<lambda>c. c \<noteq> CHR ''='') (''s3_key='' @ a) = ''s3_key''" by simp
  have d: "drop 1 (dropWhile (\<lambda>c. c \<noteq> CHR ''='') (''s3_key='' @ a)) = a" by simp
  show ?thesis
    unfolding formPair_def t d formDecode_name ..
qed

lemma parseForm_key:
  assumes "\<forall>c \<in> set a. c \<noteq> CHR ''&''"
  shows "map_of (parseForm (''s3_key='' @ a @ ''&image_url='' @ b)) ''s3_key'' = Some (formDecode a)"
proof -
  have n: "\<forall>c \<in> set (''s3_key='' @ a). \<not> (\<lambda>c. c = CHR ''&'') c"
    using assms by simp
  have "''s3_key='' @ a @ ''&image_url='' @ b = (''s3_key='' @ a) @ CHR ''&'' # (''image_url='' @ b)"
    by simp
  then have s: "splitOn (\<lambda>c. c = CHR ''&'') (''s3_key='' @ a @ ''&image_url='' @ b)
          = (''s3_key='' @ a) # splitOn (\<lambda>c. c = CHR ''&'') (''image_url='' @ b)"
    using splitOn_first [OF n, of "CHR ''&''" "''image_url='' @ b"] by simp
  have f: "filter (\<lambda>s. s \<noteq> []) ((''s3_key='' @ a) # xs)
              = (''s3_key='' @ a) # filter (\<lambda>s. s \<noteq> []) xs" for xs
    by simp
  show ?thesis
    unfolding parseForm_def s f
    by (simp only: list.map map_of.simps formPair_key fst_conv snd_conv fun_upd_same)
qed

lemma encodeURIComponent_nonempty: "s \<noteq> [] \<Longrightarrow> encodeURIComponent s \<noteq> []"
  by (cases s) (simp_all add: encodeURIComponent_def percentEncode_Cons percentByte_def)

lemma proxy_query_tail:
  "s \<noteq> [] \<Longrightarrow>
   isQueryTail (''s3_key='' @ encodeURIComponent k @ ''&image_url='' @ encodeURIComponent s)
     (encodeURIComponent k) (encodeURIComponent s)"
  unfolding isQueryTail_def
  using encodeURIComponent_chars encodeURIComponent_nonempty by blast

lemma getImageProxyUrl_key:
  assumes "parseURL P s = Some u" and "keyAfterBucket (url_pathname u) = Some k" and "name \<noteq> []"
  shows "getImageProxyUrl P s name =
           API_BASE_URL @ ''/api/image-proxy/'' @ name @ ''?''
             @ (''s3_key='' @ encodeURIComponent k @ ''&image_url='' @ encodeURIComponent s)"
proof -
  have "s \<noteq> []" using assms(1) parseURL_Nil by auto
  then show ?thesis
    using assms by (simp add: getImageProxyUrl_def)
qed

lemma key_ascii:
  assumes "parseURL P s = Some u" and "keyAfterBucket (url_pathname u) = Some k"
  shows "\<forall>c \<in> set k. code c < 0x80"
proof
  fix c assume "c \<in> set k"
  then have "c = CHR ''/'' \<or> c \<in> set (url_pathname u)"
    using keyAfterBucket_chars [OF assms(2)] by blast
  then show "code c < 0x80"
    using parseURL_ascii [OF assms(1)] by (auto simp: code_def)
qed

lemma searchParams_proxy:
  assumes "url_query u' = Some (percentEncode specialQuerySet
             (''s3_key='' @ encodeURIComponent k @ ''&image_url='' @ b))"
    and "\<forall>c \<in> set k. code c < 0x80"
  shows "searchParamsGet u' ''s3_key'' = Some k"
proof -
  let ?a = "percentEncode specialQuerySet (encodeURIComponent k)"
  let ?b = "percentEncode specialQuerySet b"
  have q: "percentEncode specialQuerySet (''s3_key='' @ encodeURIComponent k @ ''&image_url='' @ b)
        = ''s3_key='' @ ?a @ ''&image_url='' @ ?b"
    by (simp only: percentEncode_append specialQuerySet_literals)
  have "\<forall>c \<in> set ?a. encChar c"
    using percentEncode_encChar encodeURIComponent_chars by blast
  then have na: "\<forall>c \<in> set ?a. c \<noteq> CHR ''&''"
    using encChar_not(3) by blast
  have "searchParamsGet u' ''s3_key'' = map_of (parseForm (''s3_key='' @ ?a @ ''&image_url='' @ ?b)) ''s3_key''"
    by (simp only: searchParamsGet_def assms(1) q option.case)
  also have "\<dots> = Some (formDecode ?a)"
    using na by (rule parseForm_key)
  also have "formDecode ?a = k"
    using assms(2) by (rule formDecode_escaped)
  finally show ?thesis .
qed

lemma roundtrip:
  assumes "P ''https'' apiHost"
    and "parseURL P s = Some u" and "keyAfterBucket (url_pathname u) = Some k"
    and "k \<noteq> []" and "CHR ''%'' \<notin> set k"
    and "name \<noteq> []" and "CHR ''?'' \<notin> set name" and "CHR ''#'' \<notin> set name"
  shows "extractS3KeyFromUrl P (getImageProxyUrl P s name) = Some k"
proof -
  let ?q = "''s3_key='' @ encodeURIComponent k @ ''&image_url='' @ encodeURIComponent s"
  let ?proxy = "API_BASE_URL @ ''/api/image-proxy/'' @ name @ ''?'' @ ?q"
  have s: "s \<noteq> []" using assms(2) parseURL_Nil by auto
  have g: "getImageProxyUrl P s name = ?proxy"
    using assms(2,3,6) by (rule getImageProxyUrl_key)
  have n: "\<forall>c \<in> set name. \<not> isPathEnd c"
    using assms(7,8) by (auto simp: isPathEnd_def)
  note t = proxy_query_tail [OF s, of k]
  obtain u' where p: "parseURL P ?proxy = Some u'"
    and q: "url_query u' = Some (percentEncode specialQuerySet ?q)"
    using parse_proxy [where P = P, OF assms(1) n t] by blast
  have v: "searchParamsGet u' ''s3_key'' = Some k"
    using q key_ascii [OF assms(2,3)] by (rule searchParams_proxy)
  have d: "decodeURIComponent k = Some k"
    using assms(5) by (rule decodeURIComponent_plain)
  have ne: "?proxy \<noteq> []" by (simp add: API_BASE_URL_def)
  have "extractS3KeyFromUrl P ?proxy = Some k"
    using ne assms(4) d p v by (simp add: extractS3KeyFromUrl_def)
  then show ?thesis
    unfolding g .
qed

lemmas char_tests = code_def isAlpha_def isDigit_def toLower_def schemeChar_def isSlash_def
  isPathEnd_def c0ControlSet_def querySet_def specialQuerySet_def pathSet_def

lemma plainHost_api: "plainHost ''https'' apiHost"
  by (simp add: plainHost_def apiHost_def isDigit_def code_def)

lemma strip_example: "stripInput s3Example = s3Example"
  by (simp add: stripInput_def s3Example_def code_def)

lemma scheme_example:
  "splitScheme s3Example = Some (''https'', ''//s3.amazonaws.com/aura-ai-users/users/bob/a.jpg?X-Amz-Expires=3600'')"
  by (simp add: splitScheme_def s3Example_def char_tests)

lemma authority_example:
  "authorityState plainHost ''https'' ''s3.amazonaws.com/aura-ai-users/users/bob/a.jpg?X-Amz-Expires=3600''
     = Some (pathState ''https'' ''aura-ai-users/users/bob/a.jpg?X-Amz-Expires=3600'')"
  by (simp add: authorityState_special [OF isSpecial_https] pathStartState_slash [OF isSpecial_https]
      plainHost_def char_tests)

lemma path_example:
  "url_pathname (pathState ''https'' ''aura-ai-users/users/bob/a.jpg?X-Amz-Expires=3600'')
     = ''/aura-ai-users/users/bob/a.jpg''"
  by (simp add: pathState_def Let_def isSpecial_def serializePath_def percentEncode_def
      isSingleDot_def isDoubleDot_def char_tests)

lemma key_example: "keyAfterBucket ''/aura-ai-users/users/bob/a.jpg'' = Some ''users/bob/a.jpg''"
  by (simp add: keyAfterBucket_def bucketName_def)

lemma parse_example:
  "parseURL plainHost s3Example
     = Some (pathState ''https'' ''aura-ai-users/users/bob/a.jpg?X-Amz-Expires=3600'')"
  unfolding parseURL_def strip_example scheme_example
  using authority_example by (simp add: isSpecial_def isSlash_def)

lemma parse_param_example:
  "parseURL plainHost paramExample = Some (pathState ''https'' ''aura-ai-users/k?s3_key=zzz'')"
proof -
  have 1: "stripInput paramExample = paramExample"
    by (simp add: stripInput_def paramExample_def code_def)
  have 2: "splitScheme paramExample = Some (''https'', ''//s3.amazonaws.com/aura-ai-users/k?s3_key=zzz'')"
    by (simp add: splitScheme_def paramExample_def char_tests)
  have 3: "authorityState plainHost ''https'' ''s3.amazonaws.com/aura-ai-users/k?s3_key=zzz''
     = Some (pathState ''https'' ''aura-ai-users/k?s3_key=zzz'')"
    by (simp add: authorityState_special [OF isSpecial_https] pathStartState_slash [OF isSpecial_https]
      plainHost_def char_tests)
  show ?thesis
    unfolding parseURL_def 1 2 using 3 by (simp add: isSpecial_def isSlash_def)
qed

lemma param_example_url:
  "url_pathname (pathState ''https'' ''aura-ai-users/k?s3_key=zzz'') = ''/aura-ai-users/k''"
  "url_query (pathState ''https'' ''aura-ai-users/k?s3_key=zzz'') = Some ''s3_key=zzz''"
  by (simp_all add: pathState_def Let_def isSpecial_def serializePath_def percentEncode_def
      isSingleDot_def isDoubleDot_def queryOf_def char_tests)

lemma param_example_get:
  "searchParamsGet (pathState ''https'' ''aura-ai-users/k?s3_key=zzz'') ''s3_key'' = Some ''zzz''"
proof -
  have a: "\<forall>c \<in> set ''zzz''. code c < 0x80" "\<forall>c \<in> set ''s3_key''. code c < 0x80"
    by (simp_all add: code_def)
  have "formDecode ''zzz'' = ''zzz''" "formDecode ''s3_key'' = ''s3_key''"
    unfolding formDecode_def utf8DecodeWithoutBOM_def
    using utf8Decode_ascii [OF a(1)] utf8Decode_ascii [OF a(2)] by simp_all
  then show ?thesis
    by (simp add: searchParamsGet_def param_example_url parseForm_def formPair_def)
qed

lemma extract_param_example: "extractS3KeyFromUrl plainHost paramExample = Some ''zzz''"
proof -
  have "decodeURIComponent ''zzz'' = Some ''zzz''"
    by (rule decodeURIComponent_plain) simp
  moreover have "paramExample \<noteq> []" by (simp add: paramExample_def)
  ultimately show ?thesis
    by (simp add: extractS3KeyFromUrl_def parse_param_example param_example_get)
qed

lemma key_param_example: "keyAfterBucket ''/aura-ai-users/k'' = Some ''k''"
  by (simp add: keyAfterBucket_def bucketName_def)

lemma proxy_param_example:
  "extractS3KeyFromUrl plainHost (getImageProxyUrl plainHost paramExample ''bob'') = Some ''k''"
proof (rule roundtrip [where P = plainHost])
  show "plainHost ''https'' apiHost" by (rule plainHost_api)
  show "parseURL plainHost paramExample = Some (pathState ''https'' ''aura-ai-users/k?s3_key=zzz'')"
    by (rule parse_param_example)
  show "keyAfterBucket (url_pathname (pathState ''https'' ''aura-ai-users/k?s3_key=zzz'')) = Some ''k''"
    by (simp only: param_example_url key_param_example)
qed simp_all

text \<open>A user name with a fragment sign ends the URL's query before it starts.\<close>

lemma fragment_example:
  "extractS3KeyFromUrl plainHost (getImageProxyUrl plainHost s3Example ''a#b'') = None"
proof -
  let ?q = "''s3_key='' @ encodeURIComponent ''users/bob/a.jpg'' @ ''&image_url='' @ encodeURIComponent s3Example"
  let ?proxy = "API_BASE_URL @ ''/api/image-proxy/'' @ ''a#b'' @ ''?'' @ ?q"
  have k: "keyAfterBucket (url_pathname (pathState ''https'' ''aura-ai-users/users/bob/a.jpg?X-Amz-Expires=3600''))
             = Some ''users/bob/a.jpg''"
    by (simp only: path_example key_example)
  have g: "getImageProxyUrl plainHost s3Example ''a#b'' = ?proxy"
    using parse_example k by (rule getImageProxyUrl_key) simp
  have ne: "s3Example \<noteq> []" by (simp add: s3Example_def)
  note t = proxy_query_tail [OF ne, of "''users/bob/a.jpg''"]
  have st: "stripInput ?proxy = ''https://'' @ (apiHost @ CHR ''/'' # (''api/image-proxy/a#b?'' @ ?q))"
    using stripInput_proxy [OF t, of "''a#b''"] by (simp add: API_BASE_URL_host)
  have s: "splitScheme (stripInput ?proxy)
             = Some (''https'', ''//'' @ (apiHost @ CHR ''/'' # (''api/image-proxy/a#b?'' @ ?q)))"
    unfolding st by (rule splitScheme_https)
  have p: "parseURL plainHost ?proxy = Some (pathState ''https'' (''api/image-proxy/a#b?'' @ ?q))"
    using s plainHost_api by (rule parse_https)
  have u: "url_pathname (pathState ''https'' (''api/image-proxy/a#b?'' @ ?q)) = ''/api/image-proxy/a''"
      "url_query (pathState ''https'' (''api/image-proxy/a#b?'' @ ?q)) = None"
    by (simp_all add: pathState_def Let_def isSpecial_def serializePath_def percentEncode_def
      isSingleDot_def isDoubleDot_def queryOf_def char_tests)
  have n: "keyAfterBucket ''/api/image-proxy/a'' = None"
    by (simp add: keyAfterBucket_def bucketName_def)
  have pne: "?proxy \<noteq> []" by (simp add: API_BASE_URL_def)
  have "extractS3KeyFromUrl plainHost ?proxy = None"
    using pne p u n by (simp add: extractS3KeyFromUrl_def searchParamsGet_def)
  then show ?thesis unfolding g .
qed

lemma unparsable_example: "parseURL plainHost ''not a url'' = None"
  by (simp add: parseURL_def stripInput_def splitScheme_def char_tests)

subsection \<open>From a photo URL to its proxy URL and back\<close>

text \<open>
  Claim C10, as amended. Let the platform accept the host of the API base URL. For every
  URL that parses, whose path has the bucket segment \<open>aura-ai-users\<close> followed by a
  non-empty key without a percent sign, and for every non-empty user name that
  contains neither \<open>?\<close> nor \<open>#\<close>, \<open>extractS3KeyFromUrl\<close> of \<open>getImageProxyUrl\<close> of the
  URL is exactly that key. It is also what \<open>extractS3KeyFromUrl\<close> gives for the URL
  itself when the URL has no non-empty \<open>s3_key\<close> query parameter of its own. For the
  empty string and for a string that does not parse, \<open>extractS3KeyFromUrl\<close> is null.
\<close>

theorem s3_key_roundtrip:
  assumes "authorityOK ''https'' apiHost"
    and "parseURL authorityOK s3Url = Some u"
    and "keyAfterBucket (url_pathname u) = Some key"
    and "key \<noteq> []" and "CHR ''%'' \<notin> set key"
    and "name \<noteq> []" and "CHR ''?'' \<notin> set name" and "CHR ''#'' \<notin> set name"
  shows "extractS3KeyFromUrl authorityOK (getImageProxyUrl authorityOK s3Url name) = Some key
       \<and> (searchParamsGet u ''s3_key'' = None \<or> searchParamsGet u ''s3_key'' = Some []
            \<longrightarrow> extractS3KeyFromUrl authorityOK s3Url = Some key)
       \<and> extractS3KeyFromUrl authorityOK [] = None
       \<and> (parseURL authorityOK other = None \<longrightarrow> extractS3KeyFromUrl authorityOK other = None)"
proof (intro conjI impI)
  show "extractS3KeyFromUrl authorityOK (getImageProxyUrl authorityOK s3Url name) = Some key"
    using assms by (rule roundtrip)
next
  assume "searchParamsGet u ''s3_key'' = None \<or> searchParamsGet u ''s3_key'' = Some []"
  moreover have "s3Url \<noteq> []" using assms(2) parseURL_Nil by auto
  ultimately show "extractS3KeyFromUrl authorityOK s3Url = Some key"
    using assms(2,3) by (auto simp: extractS3KeyFromUrl_def)
next
  show "extractS3KeyFromUrl authorityOK [] = None"
    by (simp add: extractS3KeyFromUrl_def)
next
  assume "parseURL authorityOK other = None"
  then show "extractS3KeyFromUrl authorityOK other = None"
    by (simp add: extractS3KeyFromUrl_def)
qed

theorem s3_key_roundtrip_witness:
  "plainHost ''https'' apiHost
   \<and> parseURL plainHost s3Example
       = Some (pathState ''https'' ''aura-ai-users/users/bob/a.jpg?X-Amz-Expires=3600'')
   \<and> keyAfterBucket
        (url_pathname (pathState ''https'' ''aura-ai-users/users/bob/a.jpg?X-Amz-Expires=3600''))
       = Some ''users/bob/a.jpg''
   \<and> extractS3KeyFromUrl plainHost (getImageProxyUrl plainHost s3Example ''bob'')
       = Some ''users/bob/a.jpg''
   \<and> searchParamsGet (pathState ''https'' ''aura-ai-users/users/bob/a.jpg?X-Amz-Expires=3600'')
        ''s3_key'' = None
   \<and> extractS3KeyFromUrl plainHost s3Example = Some ''users/bob/a.jpg''
   \<and> parseURL plainHost ''not a url'' = None
   \<and> extractS3KeyFromUrl plainHost ''not a url'' = None"
proof -
  have k: "keyAfterBucket
        (url_pathname (pathState ''https'' ''aura-ai-users/users/bob/a.jpg?X-Amz-Expires=3600''))
       = Some ''users/bob/a.jpg''"
    by (simp only: path_example key_example)
  have q: "url_query (pathState ''https'' ''aura-ai-users/users/bob/a.jpg?X-Amz-Expires=3600'')
             = Some ''X-Amz-Expires=3600''"
    by (simp add: pathState_def Let_def isSpecial_def percentEncode_def queryOf_def char_tests)
  have a: "\<forall>c \<in> set ''X-Amz-Expires''. code c < 0x80" "\<forall>c \<in> set ''3600''. code c < 0x80"
    by (simp_all add: code_def)
  have "formDecode ''X-Amz-Expires'' = ''X-Amz-Expires''" "formDecode ''3600'' = ''3600''"
    unfolding formDecode_def utf8DecodeWithoutBOM_def
    using utf8Decode_ascii [OF a(1)] utf8Decode_ascii [OF a(2)] by simp_all
  then have g: "searchParamsGet
        (pathState ''https'' ''aura-ai-users/users/bob/a.jpg?X-Amz-Expires=3600'') ''s3_key'' = None"
    by (simp add: searchParamsGet_def q parseForm_def formPair_def)
  show ?thesis
    using s3_key_roundtrip [where authorityOK = plainHost and name = "''bob''"
        and other = "''not a url''", OF plainHost_api parse_example k]
    by (simp add: plainHost_api parse_example k g unparsable_example)
qed

text \<open>The claim as stated fails in two ways. The user name goes into the proxy URL as
  it is, so a name with \<open>#\<close> turns the rest of the URL, the \<open>s3_key\<close> parameter included,
  into the fragment: the key is lost. And a photo URL that carries an \<open>s3_key\<close> parameter
  of its own gives that parameter back, while its proxy URL gives the key of the path.\<close>

theorem s3_key_roundtrip_counterexample:
  "parseURL plainHost s3Example
       = Some (pathState ''https'' ''aura-ai-users/users/bob/a.jpg?X-Amz-Expires=3600'')
   \<and> keyAfterBucket
        (url_pathname (pathState ''https'' ''aura-ai-users/users/bob/a.jpg?X-Amz-Expires=3600''))
       = Some ''users/bob/a.jpg''
   \<and> extractS3KeyFromUrl plainHost (getImageProxyUrl plainHost s3Example ''a#b'') = None
   \<and> parseURL plainHost paramExample = Some (pathState ''https'' ''aura-ai-users/k?s3_key=zzz'')
   \<and> keyAfterBucket (url_pathname (pathState ''https'' ''aura-ai-users/k?s3_key=zzz'')) = Some ''k''
   \<and> extractS3KeyFromUrl plainHost (getImageProxyUrl plainHost paramExample ''bob'') = Some ''k''
   \<and> extractS3KeyFromUrl plainHost paramExample = Some ''zzz''"
proof -
  have k: "keyAfterBucket
        (url_pathname (pathState ''https'' ''aura-ai-users/users/bob/a.jpg?X-Amz-Expires=3600''))
       = Some ''users/bob/a.jpg''"
    by (simp only: path_example key_example)
  have k2: "keyAfterBucket (url_pathname (pathState ''https'' ''aura-ai-users/k?s3_key=zzz'')) = Some ''k''"
    by (simp only: param_example_url key_param_example)
  show ?thesis
    using parse_example k fragment_example parse_param_example k2 proxy_param_example
      extract_param_example
    by blast
qed

end
